theory Spec2Isabelle
  imports Main
begin

section \<open>JavaScript strings\<close>

text \<open>
  A JavaScript string is modelled as a \<^typ>\<open>string\<close>: one \<^typ>\<open>char\<close> stands for one
  code unit, and the model covers the code units below 256. The operations below are the
  methods of \<^verbatim>\<open>String.prototype\<close> that the application calls.
\<close>

fun startsWith :: "string \<Rightarrow> string \<Rightarrow> bool" where
  "startsWith s [] = True"
| "startsWith [] (p # ps) = False"
| "startsWith (c # cs) (p # ps) = (c = p \<and> startsWith cs ps)"

definition endsWith :: "string \<Rightarrow> string \<Rightarrow> bool" where
  "endsWith s p = startsWith (rev s) (rev p)"

fun includesStr :: "string \<Rightarrow> string \<Rightarrow> bool" where
  "includesStr [] p = (p = [])"
| "includesStr (c # cs) p = (startsWith (c # cs) p \<or> includesStr cs p)"

text \<open>
  \<^verbatim>\<open>toLowerCase\<close>: the upper-case letters below 256 are 65..90 and 192..222 without 215;
  each has bit 5 clear and its lower-case partner is 32 above it, so lowering sets bit 5.
\<close>

definition isUpperChar :: "char \<Rightarrow> bool" where
  "isUpperChar c =
     (let n = (of_char c :: nat)
      in (65 \<le> n \<and> n \<le> 90) \<or> (192 \<le> n \<and> n \<le> 222 \<and> n \<noteq> 215))"

definition toLowerChar :: "char \<Rightarrow> char" where
  "toLowerChar c =
     (if isUpperChar c
      then Char (digit0 c) (digit1 c) (digit2 c) (digit3 c) (digit4 c) True (digit6 c) (digit7 c)
      else c)"

definition toLowerCase :: "string \<Rightarrow> string" where
  "toLowerCase s = map toLowerChar s"

text \<open>\<^verbatim>\<open>trim\<close> removes white space and line terminators from both ends.\<close>

definition isWhiteSpace :: "char \<Rightarrow> bool" where
  "isWhiteSpace c = (c \<in> set [CHR 0x09, CHR 0x0A, CHR 0x0B, CHR 0x0C, CHR 0x0D, CHR 0x20, CHR 0xA0])"

definition trimStart :: "string \<Rightarrow> string" where
  "trimStart s = dropWhile isWhiteSpace s"

definition trimEnd :: "string \<Rightarrow> string" where
  "trimEnd s = foldr (\<lambda>c acc. if acc = [] \<and> isWhiteSpace c then [] else c # acc) s []"

definition trim :: "string \<Rightarrow> string" where
  "trim s = trimEnd (trimStart s)"

text \<open>\<^verbatim>\<open>xs.join(sep)\<close> on an array of strings.\<close>

fun join :: "string list \<Rightarrow> string \<Rightarrow> string" where
  "join [] sep = []"
| "join [x] sep = x"
| "join (x # y # ys) sep = x @ sep @ join (y # ys) sep"

text \<open>\<^verbatim>\<open>s.split('.').pop()\<close>: the part of \<open>s\<close> after its last dot, all of \<open>s\<close> when it
  has none. \<^verbatim>\<open>split\<close> never returns an empty array, so \<^verbatim>\<open>pop\<close> always has a value.\<close>

definition splitPop :: "string \<Rightarrow> string" where
  "splitPop s = rev (takeWhile (\<lambda>c. c \<noteq> CHR ''.'') (rev s))"

text \<open>Decimal rendering of a non-negative integer, as \<^verbatim>\<open>toString\<close> and template
  literals do.\<close>

fun toString :: "nat \<Rightarrow> string" where
  "toString n =
     (if n < 10 then [''0123456789'' ! n]
      else toString (n div 10) @ [''0123456789'' ! (n mod 10)])"

declare toString.simps [simp del]

section \<open>Data model (types.ts)\<close>

datatype Role = USER | MODEL

record Message =
  id_m :: string
  role :: Role
  text_m :: string
  timestamp :: nat
  isError :: bool

record UploadedFile =
  id_f :: string
  name_f :: string
  content_f :: string
  size_f :: nat
  type_f :: string

section \<open>Upload normalisation (components/FileUpload.tsx)\<close>

definition TEXT_EXTENSIONS :: "string list" where
  "TEXT_EXTENSIONS =
     [''txt'', ''md'', ''json'', ''ts'', ''js'', ''tsx'', ''jsx'',
      ''cpp'', ''c'', ''h'', ''hpp'', ''py'', ''sh'', ''java'',
      ''html'', ''css'', ''scss'', ''xml'', ''yaml'', ''yml'',
      ''sql'', ''rs'', ''go'', ''rb'', ''php'']"

definition isTextFile :: "string \<Rightarrow> bool" where
  "isTextFile filename =
     (let ext = toLowerCase (splitPop filename)
      in if ext \<noteq> [] then ext \<in> set TEXT_EXTENSIONS else False)"

text \<open>
  What the browser and JSZip hand to the handler. An archive entry has its path
  \<open>entry_name\<close>, the flag \<open>dir\<close>, the outcome of \<^verbatim>\<open>zipEntry.async('string')\<close>
  (\<open>None\<close> when the promise rejects) and \<open>entry_rnd\<close>, the string that
  \<^verbatim>\<open>Math.random().toString(36).substr(2, 9)\<close> yields when the entry's document is built.
  A file has its name, declared media type and declared size, the outcome of
  \<^verbatim>\<open>file.text()\<close>, the outcome of \<^verbatim>\<open>JSZip.loadAsync(file)\<close> (the entries in the
  order \<^verbatim>\<open>zip.forEach\<close> enumerates them; \<open>None\<close> when the archive does not open)
  and the random string drawn for its document.
\<close>

record ZipEntry =
  entry_name :: string
  dir :: bool
  async_string :: "string option"
  entry_rnd :: string

record File =
  file_name :: string
  file_type :: string
  file_size :: nat
  file_text :: "string option"
  file_zip :: "ZipEntry list option"
  file_rnd :: string

text \<open>The callback of \<^verbatim>\<open>zip.forEach\<close>: it returns early on a skipped entry and
  pushes a promise for an entry with a text extension. A promise is modelled by its
  outcome.\<close>

definition zipCallback :: "UploadedFile option list \<Rightarrow> ZipEntry \<Rightarrow> UploadedFile option list" where
  "zipCallback promises zipEntry =
     (if dir zipEntry \<or> includesStr (entry_name zipEntry) ''__MACOSX''
         \<or> startsWith (entry_name zipEntry) ''.''
      then promises
      else if isTextFile (entry_name zipEntry)
      then promises @
        [map_option (\<lambda>content.
            \<lparr>id_f = entry_rnd zipEntry, name_f = entry_name zipEntry, content_f = content,
             size_f = length content, type_f = ''text/plain''\<rparr>) (async_string zipEntry)]
      else promises)"

text \<open>\<^verbatim>\<open>Promise.all\<close>: the values in the order of the promises, or a rejection when one
  of them rejects.\<close>

fun promiseAll :: "'a option list \<Rightarrow> 'a list option" where
  "promiseAll [] = Some []"
| "promiseAll (None # ps) = None"
| "promiseAll (Some v # ps) = map_option ((#) v) (promiseAll ps)"

definition isZipFile :: "File \<Rightarrow> bool" where
  "isZipFile file = (endsWith (file_name file) ''.zip'' \<or> includesStr (file_type file) ''zip'')"

text \<open>One iteration of the loop over the selected files. The state of the loop is the
  array \<open>newFiles\<close> and the alerts shown so far.\<close>

definition processFile :: "UploadedFile list \<times> string list \<Rightarrow> File \<Rightarrow> UploadedFile list \<times> string list" where
  "processFile acc file =
     (let newFiles = fst acc; alerts = snd acc in
      if isZipFile file then
        (case file_zip file of
           None \<Rightarrow> (newFiles, alerts @ [''Failed to process zip file: '' @ file_name file])
         | Some entries \<Rightarrow>
             (case promiseAll (foldl zipCallback [] entries) of
                None \<Rightarrow> (newFiles, alerts @ [''Failed to process zip file: '' @ file_name file])
              | Some results \<Rightarrow> (newFiles @ results, alerts)))
      else if isTextFile (file_name file) \<or> startsWith (file_type file) ''text/'' then
        (case file_text file of
           None \<Rightarrow> (newFiles, alerts)
         | Some text \<Rightarrow>
             (newFiles @
               [\<lparr>id_f = file_rnd file, name_f = file_name file, content_f = text,
                 size_f = file_size file,
                 type_f = (if file_type file \<noteq> [] then file_type file else ''text/plain'')\<rparr>],
              alerts))
      else
        (case file_text file of
           None \<Rightarrow> (newFiles, alerts)
         | Some text \<Rightarrow>
             if \<not> includesStr text [CHR 0x00]
             then (newFiles @
               [\<lparr>id_f = file_rnd file, name_f = file_name file, content_f = text,
                 size_f = file_size file, type_f = file_type file\<rparr>],
              alerts)
             else (newFiles, alerts)))"

definition processFiles :: "File list \<Rightarrow> UploadedFile list \<times> string list" where
  "processFiles fileList = foldl processFile ([], []) fileList"

text \<open>The documents a batch of selected files contributes to the upload list.\<close>

definition normalizeFiles :: "File list \<Rightarrow> UploadedFile list" where
  "normalizeFiles fileList = fst (processFiles fileList)"

section \<open>Context assembly (services/geminiService.ts, App.tsx)\<close>

text \<open>The two pieces of the template literal of \<^verbatim>\<open>buildSystemInstruction\<close>, before and
  after the interpolated context.\<close>

definition templateHead :: string where
  \<open>templateHead = ''\<newline>    You are an expert technical support agent for a specific SDK/Product. \<newline>    You have been provided with the following "Knowledge Base" consisting of documentation and historical Q&A.\<newline>    \<newline>    --- START KNOWLEDGE BASE ---\<newline>    ''\<close>

definition templateTail :: string where
  \<open>templateTail = ''\<newline>    --- END KNOWLEDGE BASE ---\<newline>\<newline>    INSTRUCTIONS:\<newline>    1. Your primary goal is to answer user questions accurately based ONLY on the provided Knowledge Base.\<newline>    2. If the user's question can be answered by the Knowledge Base, provide a clear, technical, and helpful response. Use code snippets if relevant.\<newline>    3. If the user's question is NOT found in the Knowledge Base or is not a general greeting (like "hi", "hello"), you MUST strictly reply with a variation of: "I'm sorry, but this specific issue isn't covered in my current documentation. Please contact our support team at support@example.com for further assistance."\<newline>    4. Do not hallucinate features or APIs that are not in the provided text.\<newline>    5. Maintain a professional, empathetic, and polite tone.\<newline>  ''\<close>

definition buildSystemInstruction :: "string \<Rightarrow> string" where
  "buildSystemInstruction context = trim (templateHead @ context @ templateTail)"

text \<open>The argument of \<^verbatim>\<open>files.map\<close> in \<^verbatim>\<open>handleStartSession\<close>, and the joined
  result.\<close>

definition documentBlock :: "UploadedFile \<Rightarrow> string" where
  "documentBlock f = ''--- Document: '' @ name_f f @ '' ---\<newline>'' @ content_f f @ ''\<newline>''"

definition knowledgeBaseOf :: "UploadedFile list \<Rightarrow> string" where
  "knowledgeBaseOf fs = join (map documentBlock fs) ''\<newline>''"

section \<open>The provider (services/geminiService.ts)\<close>

text \<open>
  A thrown value is modelled by the three properties the handlers read; \<open>None\<close> is
  \<^verbatim>\<open>undefined\<close>. \<^verbatim>\<open>new Error(msg)\<close> is \<open>newError msg\<close>.
\<close>

record JsError =
  err_name :: "string option"
  err_message :: "string option"
  err_status :: "string option"

definition newError :: "string \<Rightarrow> JsError" where
  "newError msg = \<lparr>err_name = Some ''Error'', err_message = Some msg, err_status = None\<rparr>"

text \<open>Truthiness of a possibly undefined string.\<close>

fun truthy :: "string option \<Rightarrow> bool" where
  "truthy None = False"
| "truthy (Some s) = (s \<noteq> [])"

text \<open>\<^verbatim>\<open>n || 0\<close> on a possibly undefined integer.\<close>

fun orZero :: "int option \<Rightarrow> int" where
  "orZero None = 0"
| "orZero (Some n) = (if n \<noteq> 0 then n else 0)"

definition MODEL_NAME :: string where
  "MODEL_NAME = ''gemini-3-flash-preview''"

text \<open>
  The session handle is opaque to the application; the model keeps the configuration it
  was created with (the temperature, a floating-point constant, is left out).
\<close>

record Chat =
  chat_model :: string
  chat_systemInstruction :: string

text \<open>
  What the environment answers while a session starts: the two places an API key is read
  from, the outcome of \<^verbatim>\<open>ai.models.countTokens\<close> for a model and a text (an error, or
  the response's \<^verbatim>\<open>totalTokens\<close>), the outcome of \<^verbatim>\<open>ai.chats.create\<close> (\<open>None\<close>
  when it returns) and the clock.
\<close>

record Env =
  API_KEY :: "string option"
  VITE_API_KEY :: "string option"
  countTokens :: "string \<Rightarrow> string \<Rightarrow> JsError + int option"
  chatsCreate :: "JsError option"
  startClock :: nat

definition getClient :: "Env \<Rightarrow> JsError + string" where
  "getClient env =
     (let apiKey = (if truthy (API_KEY env) then API_KEY env else VITE_API_KEY env)
      in case apiKey of
           None \<Rightarrow> Inl (newError ''API_KEY is missing. Please set process.env.API_KEY or VITE_API_KEY in your .env file.'')
         | Some k \<Rightarrow>
             if k = [] then Inl (newError ''API_KEY is missing. Please set process.env.API_KEY or VITE_API_KEY in your .env file.'')
             else Inr k)"

definition estimateTokenCount :: "Env \<Rightarrow> string \<Rightarrow> int" where
  "estimateTokenCount env text =
     (case getClient env of
        Inl error \<Rightarrow> 0
      | Inr ai \<Rightarrow>
          (case countTokens env MODEL_NAME text of
             Inl error \<Rightarrow> 0
           | Inr totalTokens \<Rightarrow> orZero totalTokens))"

definition createChatSession :: "Env \<Rightarrow> string \<Rightarrow> JsError + Chat" where
  "createChatSession env context =
     (case getClient env of
        Inl error \<Rightarrow> Inl error
      | Inr ai \<Rightarrow>
          (let systemInstruction = buildSystemInstruction context
           in case chatsCreate env of
                Some error \<Rightarrow> Inl error
              | None \<Rightarrow> Inr \<lparr>chat_model = MODEL_NAME, chat_systemInstruction = systemInstruction\<rparr>))"

text \<open>
  One streamed answer of the provider: the chunks it delivers and how the iteration ends.
  A call of \<^verbatim>\<open>chat.sendMessageStream\<close> that throws before any chunk is the empty chunk
  list ending in \<open>Throws\<close>.
\<close>

record UsageMetadata =
  md_promptTokenCount :: "int option"
  md_candidatesTokenCount :: "int option"
  md_totalTokenCount :: "int option"

record UsageStats =
  promptTokenCount :: int
  candidatesTokenCount :: int
  totalTokenCount :: int

record Chunk =
  chunk_text :: "string option"
  usageMetadata :: "UsageMetadata option"

datatype StreamEnd = Completes | Throws JsError

record Stream =
  chunks :: "Chunk list"
  ending :: StreamEnd

text \<open>The body of the \<^verbatim>\<open>for await\<close> loop. The loop carries \<open>fullText\<close>, \<open>finalUsage\<close>
  and the state \<open>st\<close> that the callback \<open>onChunk\<close> updates.\<close>

definition streamStep ::
  "(string \<Rightarrow> 'st \<Rightarrow> 'st) \<Rightarrow> string \<times> UsageStats option \<times> 'st \<Rightarrow> Chunk
     \<Rightarrow> string \<times> UsageStats option \<times> 'st" where
  "streamStep onChunk acc c =
     (case acc of (fullText, finalUsage, st) \<Rightarrow>
        (let (fullText1, st1) =
               (case chunk_text c of
                  None \<Rightarrow> (fullText, st)
                | Some text \<Rightarrow>
                    if text \<noteq> [] then (fullText @ text, onChunk text st) else (fullText, st));
             finalUsage1 =
               (case usageMetadata c of
                  None \<Rightarrow> finalUsage
                | Some md \<Rightarrow>
                    Some \<lparr>promptTokenCount = orZero (md_promptTokenCount md),
                          candidatesTokenCount = orZero (md_candidatesTokenCount md),
                          totalTokenCount = orZero (md_totalTokenCount md)\<rparr>)
         in (fullText1, finalUsage1, st1)))"

text \<open>The \<^verbatim>\<open>catch\<close> block of \<^verbatim>\<open>sendMessageStream\<close>: the message of the error it
  rethrows.\<close>

definition streamErrorMessage :: "JsError \<Rightarrow> string" where
  "streamErrorMessage error =
     (if (case err_message error of None \<Rightarrow> False
                                  | Some m \<Rightarrow> includesStr m ''http status code: 0'')
         \<or> err_status error = Some ''UNKNOWN''
      then ''Connection failed. This could be due to a network issue, an invalid API Key, or a browser extension blocking the request.''
      else if truthy (err_message error)
      then ''Error: '' @ the (err_message error)
      else ''An error occurred while communicating with the AI.'')"

definition sendMessageStream ::
  "Stream \<Rightarrow> (string \<Rightarrow> 'st \<Rightarrow> 'st) \<Rightarrow> 'st \<Rightarrow> 'st \<times> (JsError + string \<times> UsageStats option)" where
  "sendMessageStream stream onChunk st =
     (case foldl (streamStep onChunk) ([], None, st) (chunks stream) of
        (fullText, finalUsage, st1) \<Rightarrow>
          (case ending stream of
             Completes \<Rightarrow> (st1, Inr (fullText, finalUsage))
           | Throws error \<Rightarrow> (st1, Inl (newError (streamErrorMessage error)))))"

section \<open>Application state (App.tsx)\<close>

record KnowledgeBase =
  id_kb :: string
  name_kb :: string
  createdAt :: nat
  files_kb :: nat

record ChatState =
  messages :: "Message list"
  isLoading :: bool
  streamingText :: string
  totalInputTokens :: int
  totalOutputTokens :: int

datatype Tab = upload | library

text \<open>
  The durable slot \<^verbatim>\<open>smartsdk_kbs\<close> holds the JSON text of the record array: the model
  keeps the value this text encodes, each record with its documents written out.
\<close>

record StoredKB =
  stored_id :: string
  stored_name :: string
  stored_createdAt :: nat
  stored_files :: "UploadedFile list"

text \<open>
  The state cells of the component. A JavaScript array of documents is an object with an
  identity: \<open>arrays\<close> maps the address of each array built so far to its elements,
  \<open>nextRef\<close> is the next unused address, and \<open>files\<close> and the \<open>files_kb\<close> of a record
  are addresses. The documents themselves are kept by value: no code writes to a document
  after it is built. \<open>localStorage\<close> is the durable slot and \<open>alertLog\<close> collects the
  texts of the \<^verbatim>\<open>alert\<close> calls, oldest first.
\<close>

record AppState =
  arrays :: "nat \<Rightarrow> UploadedFile list"
  nextRef :: nat
  files :: nat
  savedKBs :: "KnowledgeBase list"
  activeTab :: Tab
  isSidebarOpen :: bool
  sessionActive :: bool
  chatInstance :: "Chat option"
  showSaveInput :: bool
  saveName :: string
  chatState :: ChatState
  inputMessage :: string
  localStorage :: "StoredKB list option"
  alertLog :: "string list"

definition emptyChatState :: ChatState where
  "emptyChatState =
     \<lparr>messages = [], isLoading = False, streamingText = [],
      totalInputTokens = 0, totalOutputTokens = 0\<rparr>"

text \<open>The state after the \<^verbatim>\<open>useState\<close> initialisers, for a given content of the durable
  slot.\<close>

definition initialCells :: "StoredKB list option \<Rightarrow> AppState" where
  "initialCells slot =
     \<lparr>arrays = (\<lambda>r. []), nextRef = 1, files = 0, savedKBs = [], activeTab = upload,
      isSidebarOpen = True, sessionActive = False, chatInstance = None,
      showSaveInput = False, saveName = [], chatState = emptyChatState,
      inputMessage = [], localStorage = slot, alertLog = []\<rparr>"

text \<open>The elements of the live upload list.\<close>

definition liveFiles :: "AppState \<Rightarrow> UploadedFile list" where
  "liveFiles s = arrays s (files s)"

text \<open>Building a new array, and \<^verbatim>\<open>setFiles\<close> with a newly built array.\<close>

definition newArray :: "UploadedFile list \<Rightarrow> AppState \<Rightarrow> AppState" where
  "newArray xs s = s\<lparr>arrays := (arrays s)(nextRef s := xs), nextRef := Suc (nextRef s)\<rparr>"

definition setFilesNew :: "UploadedFile list \<Rightarrow> AppState \<Rightarrow> AppState" where
  "setFilesNew xs s = (newArray xs s)\<lparr>files := nextRef s\<rparr>"

definition alert :: "string \<Rightarrow> AppState \<Rightarrow> AppState" where
  "alert msg s = s\<lparr>alertLog := alertLog s @ [msg]\<rparr>"

definition JSON_stringify :: "(nat \<Rightarrow> UploadedFile list) \<Rightarrow> KnowledgeBase list \<Rightarrow> StoredKB list" where
  "JSON_stringify h kbs =
     map (\<lambda>kb. \<lparr>stored_id = id_kb kb, stored_name = name_kb kb,
                 stored_createdAt = createdAt kb, stored_files = h (files_kb kb)\<rparr>) kbs"

text \<open>
  The effect that runs when the component mounts: an empty slot leaves the state as it is;
  otherwise \<^verbatim>\<open>JSON.parse\<close> builds every stored record anew, each with an array of its
  own, and the result becomes \<open>savedKBs\<close>. (A slot whose text does not parse also leaves
  the state as it is; the slot of the model holds record lists only.)
\<close>

definition parseRecord :: "AppState \<Rightarrow> StoredKB \<Rightarrow> AppState" where
  "parseRecord s r =
     (newArray (stored_files r) s)
       \<lparr>savedKBs := savedKBs s @
          [\<lparr>id_kb = stored_id r, name_kb = stored_name r, createdAt = stored_createdAt r,
            files_kb = nextRef s\<rparr>]\<rparr>"

definition mountEffect :: "AppState \<Rightarrow> AppState" where
  "mountEffect s =
     (case localStorage s of
        None \<Rightarrow> s
      | Some saved \<Rightarrow> foldl parseRecord (s\<lparr>savedKBs := []\<rparr>) saved)"

text \<open>The state in which the application starts, for a given content of the durable
  slot.\<close>

definition initialState :: "StoredKB list option \<Rightarrow> AppState" where
  "initialState slot = mountEffect (initialCells slot)"

subsection \<open>Upload list\<close>

definition handleFileChange :: "File list option \<Rightarrow> AppState \<Rightarrow> AppState" where
  "handleFileChange targetFiles s =
     (case targetFiles of
        None \<Rightarrow> s
      | Some fileList \<Rightarrow>
          (let (newFiles, alerts) = processFiles fileList
           in setFilesNew (liveFiles s @ newFiles) (s\<lparr>alertLog := alertLog s @ alerts\<rparr>)))"

definition removeFile :: "string \<Rightarrow> AppState \<Rightarrow> AppState" where
  "removeFile i s = setFilesNew (filter (\<lambda>f. id_f f \<noteq> i) (liveFiles s)) s"

subsection \<open>Session\<close>

definition greeting :: "nat \<Rightarrow> nat \<Rightarrow> Message" where
  "greeting n clock =
     \<lparr>id_m = ''init'', role = MODEL,
      text_m = ''Hello! I've analyzed your '' @ toString n @
        '' document(s). I'm ready to answer questions specifically about this knowledge base. How can I help you?'',
      timestamp = clock, isError = False\<rparr>"

definition handleStartSession :: "Env \<Rightarrow> AppState \<Rightarrow> AppState" where
  "handleStartSession env s =
     (if length (liveFiles s) = 0 then s
      else
        (let s1 = s\<lparr>chatState := (chatState s)\<lparr>isLoading := True\<rparr>\<rparr>;
             knowledgeBase = knowledgeBaseOf (liveFiles s);
             systemInstruction = buildSystemInstruction knowledgeBase;
             initialInputTokens = estimateTokenCount env systemInstruction
         in case createChatSession env knowledgeBase of
              Inr chat \<Rightarrow>
                s1\<lparr>chatInstance := Some chat, sessionActive := True,
                   chatState := (chatState s1)
                     \<lparr>messages := [greeting (length (liveFiles s)) (startClock env)],
                      isLoading := False, streamingText := [],
                      totalInputTokens := initialInputTokens,
                      totalOutputTokens := 0\<rparr>\<rparr>
            | Inl error \<Rightarrow>
                (let msg = (if truthy (err_message error) then the (err_message error)
                            else ''Failed to initialize the AI session.'')
                 in (alert msg s1)\<lparr>chatState := (chatState s1)\<lparr>isLoading := False\<rparr>\<rparr>)))"

definition handleReset :: "AppState \<Rightarrow> AppState" where
  "handleReset s = s\<lparr>sessionActive := False, chatInstance := None, chatState := emptyChatState\<rparr>"

definition handleCreateNew :: "AppState \<Rightarrow> AppState" where
  "handleCreateNew s =
     (setFilesNew [] s)
       \<lparr>showSaveInput := False, saveName := [], sessionActive := False, chatInstance := None,
        chatState := emptyChatState, activeTab := upload\<rparr>"

definition handleClearWorkspace :: "bool \<Rightarrow> AppState \<Rightarrow> AppState" where
  "handleClearWorkspace confirmed s =
     (if confirmed then (setFilesNew [] s)\<lparr>showSaveInput := False, saveName := []\<rparr> else s)"

subsection \<open>One turn\<close>

text \<open>
  What the environment answers during one turn: the clock when the user message is built,
  the streamed answer, and the clock when the turn ends. The two clock reads that build one
  message (its id and its timestamp) are taken as one reading.
\<close>

record Turn =
  userClock :: nat
  stream :: Stream
  endClock :: nat

text \<open>The callback handed to \<^verbatim>\<open>sendMessageStream\<close>: it appends the chunk to the
  streaming buffer of the state and to the local \<open>fullResponse\<close>.\<close>

definition onChunk :: "string \<Rightarrow> AppState \<times> string \<Rightarrow> AppState \<times> string" where
  "onChunk chunk p =
     (case p of (s, fullResponse) \<Rightarrow>
        (s\<lparr>chatState := (chatState s)\<lparr>streamingText := streamingText (chatState s) @ chunk\<rparr>\<rparr>,
         fullResponse @ chunk))"

definition usagePrompt :: "UsageStats option \<Rightarrow> int" where
  "usagePrompt usage = orZero (map_option promptTokenCount usage)"

definition usageCandidates :: "UsageStats option \<Rightarrow> int" where
  "usageCandidates usage = orZero (map_option candidatesTokenCount usage)"

definition handleSendMessage :: "Turn \<Rightarrow> AppState \<Rightarrow> AppState" where
  "handleSendMessage turn s =
     (if trim (inputMessage s) = [] \<or> chatInstance s = None \<or> isLoading (chatState s) then s
      else
        (let userMsgText = trim (inputMessage s);
             newUserMsg = \<lparr>id_m = toString (userClock turn), role = USER, text_m = userMsgText,
                            timestamp = userClock turn, isError = False\<rparr>;
             s1 = s\<lparr>inputMessage := [],
                    chatState := (chatState s)
                      \<lparr>messages := messages (chatState s) @ [newUserMsg],
                       isLoading := True, streamingText := []\<rparr>\<rparr>
         in case sendMessageStream (stream turn) onChunk (s1, []) of
              ((s2, fullResponse), Inr response) \<Rightarrow>
                (let newBotMsg = \<lparr>id_m = toString (endClock turn + 1), role = MODEL,
                                  text_m = fullResponse, timestamp = endClock turn,
                                  isError = False\<rparr>
                 in s2\<lparr>chatState := (chatState s2)
                      \<lparr>messages := messages (chatState s2) @ [newBotMsg],
                       isLoading := False, streamingText := [],
                       totalInputTokens :=
                         totalInputTokens (chatState s2) + usagePrompt (snd response),
                       totalOutputTokens :=
                         totalOutputTokens (chatState s2) + usageCandidates (snd response)\<rparr>\<rparr>)
            | ((s2, fullResponse), Inl error) \<Rightarrow>
                (let errorText = (if truthy (err_message error) then the (err_message error)
                                  else ''I encountered an error connecting to the support system.'');
                     errorMsg = \<lparr>id_m = toString (endClock turn), role = MODEL,
                                 text_m = errorText, timestamp = endClock turn,
                                 isError = True\<rparr>
                 in s2\<lparr>chatState := (chatState s2)
                      \<lparr>messages := messages (chatState s2) @ [errorMsg],
                       isLoading := False, streamingText := []\<rparr>\<rparr>)))"

subsection \<open>Saved knowledge bases\<close>

text \<open>\<open>label\<close> is the name proposed from the locale's date and time.\<close>

definition handleInitiateSave :: "string \<Rightarrow> AppState \<Rightarrow> AppState" where
  "handleInitiateSave label s =
     (if length (liveFiles s) = 0 then s else s\<lparr>saveName := label, showSaveInput := True\<rparr>)"

definition quotaError :: "JsError \<Rightarrow> bool" where
  "quotaError error =
     (err_name error = Some ''QuotaExceededError''
      \<or> (case err_message error of None \<Rightarrow> False
                                   | Some m \<Rightarrow> includesStr (toLowerCase m) ''quota''))"

definition quotaAlert :: string where
  "quotaAlert = ''Cannot save Knowledge Base: Storage limit exceeded.\<newline>\<newline>Browser local storage is limited (usually ~5MB). Please try removing old Knowledge Bases or uploading fewer/smaller files.''"

definition genericSaveAlert :: string where
  "genericSaveAlert = ''Failed to save Knowledge Base. Please try again.''"

text \<open>
  \<open>clock\<close> is \<^verbatim>\<open>Date.now()\<close> (read for the id and for \<open>createdAt\<close>, taken as one
  reading) and \<open>setItem\<close> is the outcome of \<^verbatim>\<open>localStorage.setItem\<close>: \<open>None\<close> when it
  returns, the thrown value otherwise, in which case the slot keeps its content.
\<close>

definition handleConfirmSave :: "nat \<Rightarrow> JsError option \<Rightarrow> AppState \<Rightarrow> AppState" where
  "handleConfirmSave clock setItem s =
     (if trim (saveName s) = [] then alert ''Please enter a name for the Knowledge Base.'' s
      else
        (let newKB = \<lparr>id_kb = toString clock, name_kb = trim (saveName s), createdAt = clock,
                      files_kb = nextRef s\<rparr>;
             s1 = newArray (liveFiles s) s;
             updatedKBs = savedKBs s1 @ [newKB]
         in case setItem of
              None \<Rightarrow>
                alert ''Knowledge Base saved successfully!''
                  (s1\<lparr>localStorage := Some (JSON_stringify (arrays s1) updatedKBs),
                      savedKBs := updatedKBs, showSaveInput := False, saveName := []\<rparr>)
                  \<lparr>activeTab := library\<rparr>
            | Some error \<Rightarrow>
                if quotaError error then alert quotaAlert s1 else alert genericSaveAlert s1))"

definition handleCancelSave :: "AppState \<Rightarrow> AppState" where
  "handleCancelSave s = s\<lparr>showSaveInput := False, saveName := []\<rparr>"

text \<open>\<open>confirmed\<close> is the answer to the confirmation dialog, asked only while a session is
  active.\<close>

definition handleLoadKB :: "KnowledgeBase \<Rightarrow> bool \<Rightarrow> AppState \<Rightarrow> AppState" where
  "handleLoadKB kb confirmed s =
     (if sessionActive s then
        (if \<not> confirmed then s
         else (handleReset s)\<lparr>files := files_kb kb, activeTab := upload\<rparr>)
      else s\<lparr>files := files_kb kb, activeTab := upload\<rparr>)"

definition handleDeleteKB :: "string \<Rightarrow> bool \<Rightarrow> JsError option \<Rightarrow> AppState \<Rightarrow> AppState" where
  "handleDeleteKB i confirmed setItem s =
     (if \<not> confirmed then s
      else
        (let updated = filter (\<lambda>kb. id_kb kb \<noteq> i) (savedKBs s)
         in case setItem of
              None \<Rightarrow> s\<lparr>localStorage := Some (JSON_stringify (arrays s) updated),
                         savedKBs := updated\<rparr>
            | Some error \<Rightarrow> alert ''Failed to delete Knowledge Base.'' s))"

subsection \<open>User actions\<close>

datatype Action =
    FileChange "File list option"
  | RemoveFile string
  | ClearWorkspace bool
  | CreateNew
  | StartSession Env
  | Reset
  | SetInputMessage string
  | SendMessage Turn
  | InitiateSave string
  | SetSaveName string
  | ConfirmSave nat "JsError option"
  | CancelSave
  | LoadKB KnowledgeBase bool
  | DeleteKB string bool "JsError option"

fun step :: "AppState \<Rightarrow> Action \<Rightarrow> AppState" where
  "step s (FileChange targetFiles) = handleFileChange targetFiles s"
| "step s (RemoveFile i) = removeFile i s"
| "step s (ClearWorkspace confirmed) = handleClearWorkspace confirmed s"
| "step s CreateNew = handleCreateNew s"
| "step s (StartSession env) = handleStartSession env s"
| "step s Reset = handleReset s"
| "step s (SetInputMessage v) = s\<lparr>inputMessage := v\<rparr>"
| "step s (SendMessage turn) = handleSendMessage turn s"
| "step s (InitiateSave label) = handleInitiateSave label s"
| "step s (SetSaveName v) = s\<lparr>saveName := v\<rparr>"
| "step s (ConfirmSave clock setItem) = handleConfirmSave clock setItem s"
| "step s CancelSave = handleCancelSave s"
| "step s (LoadKB kb confirmed) = handleLoadKB kb confirmed s"
| "step s (DeleteKB i confirmed setItem) = handleDeleteKB i confirmed setItem s"

definition run :: "AppState \<Rightarrow> Action list \<Rightarrow> AppState" where
  "run s acts = foldl step s acts"

section \<open>Conditions on the environment\<close>

text \<open>The usage counts that the provider reports in a streamed answer are not
  negative.\<close>

definition nonNegativeUsage :: "Stream \<Rightarrow> bool" where
  "nonNegativeUsage st =
     list_all (\<lambda>c. case usageMetadata c of
                      None \<Rightarrow> True
                    | Some md \<Rightarrow> 0 \<le> orZero (md_promptTokenCount md)
                                 \<and> 0 \<le> orZero (md_candidatesTokenCount md))
       (chunks st)"

text \<open>The actions that neither begin nor end a session; the turns among them get answers
  with usage counts that are not negative.\<close>

fun withinSession :: "Action \<Rightarrow> bool" where
  "withinSession (StartSession env) = False"
| "withinSession Reset = False"
| "withinSession CreateNew = False"
| "withinSession (LoadKB kb confirmed) = False"
| "withinSession (SendMessage turn) = nonNegativeUsage (stream turn)"
| "withinSession (FileChange targetFiles) = True"
| "withinSession (RemoveFile i) = True"
| "withinSession (ClearWorkspace confirmed) = True"
| "withinSession (SetInputMessage v) = True"
| "withinSession (InitiateSave label) = True"
| "withinSession (SetSaveName v) = True"
| "withinSession (ConfirmSave clock setItem) = True"
| "withinSession CancelSave = True"
| "withinSession (DeleteKB i confirmed setItem) = True"

text \<open>
  In a well-formed state the live list and the saved records refer to arrays built
  before. The library panel offers for loading only the records of \<open>savedKBs\<close>.
\<close>

definition wellFormed :: "AppState \<Rightarrow> bool" where
  "wellFormed s =
     (files s < nextRef s \<and> list_all (\<lambda>kb. files_kb kb < nextRef s) (savedKBs s))"

fun offered :: "AppState \<Rightarrow> Action \<Rightarrow> bool" where
  "offered s (LoadKB kb confirmed) = (kb \<in> set (savedKBs s))"
| "offered s a = True"

section \<open>Example inputs\<close>

definition exampleEntries :: "ZipEntry list" where
  "exampleEntries =
     [\<lparr>entry_name = ''src/'', dir = True, async_string = Some [], entry_rnd = ''q1w2e3r4t''\<rparr>,
      \<lparr>entry_name = ''src/main.cpp'', dir = False, async_string = Some ''int main() {}'',
       entry_rnd = ''a1b2c3d4e''\<rparr>,
      \<lparr>entry_name = ''__MACOSX/._main.cpp'', dir = False, async_string = Some ''Mac'',
       entry_rnd = ''z9y8x7w6v''\<rparr>,
      \<lparr>entry_name = ''.notes.md'', dir = False, async_string = Some ''todo'',
       entry_rnd = ''m5n6o7p8q''\<rparr>,
      \<lparr>entry_name = ''logo.png'', dir = False, async_string = Some ''PNG'',
       entry_rnd = ''h1i2j3k4l''\<rparr>]"

definition exampleArchive :: File where
  "exampleArchive =
     \<lparr>file_name = ''docs.zip'', file_type = ''application/zip'', file_size = 2048,
      file_text = None, file_zip = Some exampleEntries, file_rnd = ''u1v2w3x4y''\<rparr>"

text \<open>An archive with a dot file at the top level and the same file below a
  directory.\<close>

definition exampleNestedEntries :: "ZipEntry list" where
  "exampleNestedEntries =
     [\<lparr>entry_name = ''.eslintrc.json'', dir = False, async_string = Some ''{}'',
       entry_rnd = ''b7n8m9k0j''\<rparr>,
      \<lparr>entry_name = ''src/'', dir = True, async_string = Some [], entry_rnd = ''c4v5b6n7m''\<rparr>,
      \<lparr>entry_name = ''src/.eslintrc.json'', dir = False, async_string = Some ''{}'',
       entry_rnd = ''d2f3g4h5j''\<rparr>]"

definition exampleNestedArchive :: File where
  "exampleNestedArchive =
     \<lparr>file_name = ''sdk.zip'', file_type = ''application/zip'', file_size = 512,
      file_text = None, file_zip = Some exampleNestedEntries, file_rnd = ''e9r8t7y6u''\<rparr>"

definition exampleTextFile :: File where
  "exampleTextFile =
     \<lparr>file_name = ''README.MD'', file_type = [], file_size = 5, file_text = Some ''Hello'',
      file_zip = None, file_rnd = ''k3j9x0a1b''\<rparr>"

definition exampleDocuments :: "UploadedFile list" where
  "exampleDocuments =
     [\<lparr>id_f = ''k3j9x0a1b'', name_f = ''readme.md'', content_f = ''Hello'', size_f = 5,
       type_f = ''text/markdown''\<rparr>,
      \<lparr>id_f = ''p0o9i8u7y'', name_f = ''guide.txt'', content_f = ''World'', size_f = 5,
       type_f = ''text/plain''\<rparr>]"

text \<open>The same two documents with other ids, as a second upload of the same files
  gives.\<close>

definition exampleDocumentsAgain :: "UploadedFile list" where
  "exampleDocumentsAgain =
     [\<lparr>id_f = ''t5r4e3w2q'', name_f = ''readme.md'', content_f = ''Hello'', size_f = 5,
       type_f = ''text/markdown''\<rparr>,
      \<lparr>id_f = ''l1k2j3h4g'', name_f = ''guide.txt'', content_f = ''World'', size_f = 5,
       type_f = ''text/plain''\<rparr>]"

definition exampleEnv :: Env where
  "exampleEnv =
     \<lparr>API_KEY = Some ''AIzaSyExampleKey'', VITE_API_KEY = None,
      countTokens = (\<lambda>model text. Inr (Some 1200)), chatsCreate = None,
      startClock = 1700000000000\<rparr>"

text \<open>An environment in which counting fails and the session still opens.\<close>

definition exampleEnvNoCount :: Env where
  "exampleEnvNoCount =
     \<lparr>API_KEY = None, VITE_API_KEY = Some ''AIzaSyExampleKey'',
      countTokens = (\<lambda>model text.
        Inl \<lparr>err_name = Some ''Error'', err_message = Some ''503 Service Unavailable'',
              err_status = None\<rparr>),
      chatsCreate = None, startClock = 1700000000000\<rparr>"

definition exampleUploaded :: AppState where
  "exampleUploaded = run (initialState None) [FileChange (Some [exampleTextFile])]"

definition exampleSession :: AppState where
  "exampleSession =
     run exampleUploaded [StartSession exampleEnv, SetInputMessage '' How do I install it? '']"

definition exampleNetworkError :: JsError where
  "exampleNetworkError =
     \<lparr>err_name = Some ''Error'', err_message = Some ''fetch failed: http status code: 0'',
      err_status = None\<rparr>"

definition exampleFailedTurn :: Turn where
  "exampleFailedTurn =
     \<lparr>userClock = 1700000001000,
      stream = \<lparr>chunks = [\<lparr>chunk_text = Some ''To install'', usageMetadata = None\<rparr>],
                ending = Throws exampleNetworkError\<rparr>,
      endClock = 1700000002000\<rparr>"

definition exampleTurn :: Turn where
  "exampleTurn =
     \<lparr>userClock = 1700000001000,
      stream = \<lparr>chunks =
                  [\<lparr>chunk_text = Some ''Run '', usageMetadata = None\<rparr>,
                   \<lparr>chunk_text = Some ''npm install.'',
                    usageMetadata = Some \<lparr>md_promptTokenCount = Some 1210,
                      md_candidatesTokenCount = Some 4, md_totalTokenCount = Some 1214\<rparr>\<rparr>],
                ending = Completes\<rparr>,
      endClock = 1700000002000\<rparr>"

definition exampleNamed :: AppState where
  "exampleNamed = run exampleUploaded [InitiateSave ''SDK Docs - 11/14/2023 10:13 PM'']"

definition exampleQuotaError :: JsError where
  "exampleQuotaError =
     \<lparr>err_name = Some ''QuotaExceededError'',
      err_message = Some ''Failed to execute setItem on Storage'', err_status = None\<rparr>"

definition exampleSaved :: AppState where
  "exampleSaved = run exampleNamed [ConfirmSave 1700000003000 None]"

text \<open>After the first save: one more upload and a name for a second save.\<close>

definition exampleRenamed :: AppState where
  "exampleRenamed =
     run exampleSaved [FileChange (Some [exampleArchive]), InitiateSave ''SDK Docs v2'']"

section \<open>Properties of the upload normalisation\<close>

lemma promiseAll_Some: "promiseAll ps = Some rs \<Longrightarrow> ps = map Some rs"
proof (induction ps arbitrary: rs)
  case Nil
  then show ?case by simp
next
  case (Cons p ps)
  then show ?case by (cases p) auto
qed

lemma zipCallback_promises:
  "p \<in> set (foldl zipCallback acc es) \<Longrightarrow>
     p \<in> set acc \<or>
     (\<exists>e \<in> set es. \<not> dir e \<and> \<not> includesStr (entry_name e) ''__MACOSX''
        \<and> \<not> startsWith (entry_name e) ''.'' \<and> isTextFile (entry_name e)
        \<and> p = map_option (\<lambda>content.
            \<lparr>id_f = entry_rnd e, name_f = entry_name e, content_f = content,
             size_f = length content, type_f = ''text/plain''\<rparr>) (async_string e))"
proof (induction es arbitrary: acc)
  case Nil
  then show ?case by simp
next
  case (Cons e es)
  from Cons.IH [OF Cons.prems [simplified]] show ?case
    by (auto simp: zipCallback_def split: if_splits)
qed

lemma zip_documents:
  assumes "isZipFile f" and "file_zip f = Some entries" and "d \<in> set (normalizeFiles [f])"
  shows "\<exists>e \<in> set entries. \<exists>content. async_string e = Some content
           \<and> d = \<lparr>id_f = entry_rnd e, name_f = entry_name e, content_f = content,
                   size_f = length content, type_f = ''text/plain''\<rparr>
           \<and> \<not> dir e \<and> \<not> includesStr (entry_name e) ''__MACOSX''
           \<and> \<not> startsWith (entry_name e) ''.'' \<and> isTextFile (entry_name e)"
proof -
  from assms obtain rs where all: "promiseAll (foldl zipCallback [] entries) = Some rs"
    and d: "d \<in> set rs"
    by (auto simp: normalizeFiles_def processFiles_def processFile_def split: option.splits)
  from promiseAll_Some [OF all] d have "Some d \<in> set (foldl zipCallback [] entries)"
    by simp
  from zipCallback_promises [OF this] obtain e where e: "e \<in> set entries"
    and keep: "\<not> dir e" "\<not> includesStr (entry_name e) ''__MACOSX''"
      "\<not> startsWith (entry_name e) ''.''" "isTextFile (entry_name e)"
    and p: "Some d = map_option (\<lambda>content.
            \<lparr>id_f = entry_rnd e, name_f = entry_name e, content_f = content,
             size_f = length content, type_f = ''text/plain''\<rparr>) (async_string e)"
    by auto
  from p obtain content where "async_string e = Some content"
    and "d = \<lparr>id_f = entry_rnd e, name_f = entry_name e, content_f = content,
             size_f = length content, type_f = ''text/plain''\<rparr>"
    by (cases "async_string e") auto
  with e keep show ?thesis by blast
qed

lemma normalizeFiles_no_zip: "isZipFile f \<Longrightarrow> file_zip f = None \<Longrightarrow> normalizeFiles [f] = []"
  by (simp add: normalizeFiles_def processFiles_def processFile_def)

lemma processFile_acc:
  "processFile (nf, al) f = (nf @ fst (processFile ([], []) f), al @ snd (processFile ([], []) f))"
  by (simp add: processFile_def Let_def split: option.splits)

lemma processFiles_acc:
  "fst (foldl processFile (nf, al) fs) = nf @ concat (map (\<lambda>f. normalizeFiles [f]) fs)"
proof (induction fs arbitrary: nf al)
  case Nil
  then show ?case by simp
next
  case (Cons f fs)
  have "processFile (nf, al) f = (nf @ normalizeFiles [f], al @ snd (processFile ([], []) f))"
    using processFile_acc [of nf al f] by (simp add: normalizeFiles_def processFiles_def)
  then show ?case using Cons.IH by simp
qed

lemma normalizeFiles_batch: "normalizeFiles fs = concat (map (\<lambda>f. normalizeFiles [f]) fs)"
  using processFiles_acc [of "[]" "[]" fs] by (simp add: normalizeFiles_def processFiles_def)

lemma isTextFile_allow_listed: "ext \<in> set TEXT_EXTENSIONS \<Longrightarrow> isTextFile (base @ ''.'' @ ext)"
  by (auto simp: TEXT_EXTENSIONS_def isTextFile_def splitPop_def toLowerCase_def
      toLowerChar_def isUpperChar_def)

lemma exampleArchive_facts:
  "isZipFile exampleArchive"
  "file_zip exampleArchive = Some exampleEntries"
  "distinct (map entry_name exampleEntries)"
  "normalizeFiles [exampleArchive] \<noteq> []"
  "\<exists>e \<in> set exampleEntries. dir e"
  "\<exists>e \<in> set exampleEntries. includesStr (entry_name e) ''__MACOSX''"
  "\<exists>e \<in> set exampleEntries. startsWith (entry_name e) ''.''"
  by code_simp+

lemma exampleEntries_facts:
  "hd (normalizeFiles [exampleArchive]) \<in> set (normalizeFiles [exampleArchive])"
  "exampleEntries ! 0 \<in> set exampleEntries"
  "dir (exampleEntries ! 0)"
  "exampleEntries ! 2 \<in> set exampleEntries"
  "includesStr (entry_name (exampleEntries ! 2)) ''__MACOSX''
     \<or> startsWith (entry_name (exampleEntries ! 2)) ''.''"
  "exampleEntries ! 3 \<in> set exampleEntries"
  "includesStr (entry_name (exampleEntries ! 3)) ''__MACOSX''
     \<or> startsWith (entry_name (exampleEntries ! 3)) ''.''"
  "isTextFile (entry_name (exampleEntries ! 2))"
  "isTextFile (entry_name (exampleEntries ! 3))"
  by code_simp+

lemma exampleTextFile_facts:
  "\<not> isZipFile exampleTextFile" "isTextFile (file_name exampleTextFile)"
  "file_text exampleTextFile = Some ''Hello''"
  by code_simp+

text \<open>
  What the skip test of the callback guarantees: every document of an archive comes from
  an entry that is not a directory, whose path does not contain \<^verbatim>\<open>__MACOSX\<close> and whose
  path does not begin with a dot; no entry with the marker in its path or a dot at the
  start of its path has the name of an output document, whatever its extension, and
  neither has a directory entry (the names of the entries of one archive are distinct).
\<close>

lemma zip_skipped_paths_absent:
  assumes "isZipFile f" and "file_zip f = Some entries"
  shows "(\<forall>d \<in> set (normalizeFiles [f]). \<exists>e \<in> set entries.
            name_f d = entry_name e \<and> async_string e = Some (content_f d) \<and> \<not> dir e
            \<and> \<not> includesStr (entry_name e) ''__MACOSX'' \<and> \<not> startsWith (entry_name e) ''.'')
       \<and> (\<forall>e \<in> set entries.
            includesStr (entry_name e) ''__MACOSX'' \<or> startsWith (entry_name e) ''.''
            \<longrightarrow> entry_name e \<notin> name_f ` set (normalizeFiles [f]))
       \<and> (distinct (map entry_name entries) \<longrightarrow>
            (\<forall>e \<in> set entries. dir e \<longrightarrow> entry_name e \<notin> name_f ` set (normalizeFiles [f])))"
proof (intro conjI ballI impI)
  fix d assume "d \<in> set (normalizeFiles [f])"
  from zip_documents [OF assms this] show "\<exists>e \<in> set entries.
            name_f d = entry_name e \<and> async_string e = Some (content_f d) \<and> \<not> dir e
            \<and> \<not> includesStr (entry_name e) ''__MACOSX'' \<and> \<not> startsWith (entry_name e) ''.''"
    by auto
next
  fix e assume "e \<in> set entries"
    and skip: "includesStr (entry_name e) ''__MACOSX'' \<or> startsWith (entry_name e) ''.''"
  show "entry_name e \<notin> name_f ` set (normalizeFiles [f])"
  proof
    assume "entry_name e \<in> name_f ` set (normalizeFiles [f])"
    then obtain d where "d \<in> set (normalizeFiles [f])" and "name_f d = entry_name e" by auto
    with zip_documents [OF assms, of d] skip show False by auto
  qed
next
  fix e assume dist: "distinct (map entry_name entries)" and e: "e \<in> set entries" and "dir e"
  show "entry_name e \<notin> name_f ` set (normalizeFiles [f])"
  proof
    assume "entry_name e \<in> name_f ` set (normalizeFiles [f])"
    then obtain d where "d \<in> set (normalizeFiles [f])" and n: "name_f d = entry_name e" by auto
    with zip_documents [OF assms, of d] obtain e' where e': "e' \<in> set entries"
      and "entry_name e' = entry_name e" and nd: "\<not> dir e'" by auto
    with dist e have "e' = e" by (meson distinct_map inj_onD)
    with nd \<open>dir e\<close> show False by simp
  qed
qed

lemma zip_skipped_paths_absent_example:
  "isZipFile exampleArchive \<and> file_zip exampleArchive = Some exampleEntries
   \<and> distinct (map entry_name exampleEntries)
   \<and> hd (normalizeFiles [exampleArchive]) \<in> set (normalizeFiles [exampleArchive])
   \<and> (\<exists>e \<in> set exampleEntries.
         name_f (hd (normalizeFiles [exampleArchive])) = entry_name e
         \<and> async_string e = Some (content_f (hd (normalizeFiles [exampleArchive])))
         \<and> \<not> dir e \<and> \<not> includesStr (entry_name e) ''__MACOSX''
         \<and> \<not> startsWith (entry_name e) ''.'')
   \<and> exampleEntries ! 2 \<in> set exampleEntries
   \<and> (includesStr (entry_name (exampleEntries ! 2)) ''__MACOSX''
        \<or> startsWith (entry_name (exampleEntries ! 2)) ''.'')
   \<and> isTextFile (entry_name (exampleEntries ! 2))
   \<and> entry_name (exampleEntries ! 2) \<notin> name_f ` set (normalizeFiles [exampleArchive])
   \<and> exampleEntries ! 3 \<in> set exampleEntries
   \<and> (includesStr (entry_name (exampleEntries ! 3)) ''__MACOSX''
        \<or> startsWith (entry_name (exampleEntries ! 3)) ''.'')
   \<and> isTextFile (entry_name (exampleEntries ! 3))
   \<and> entry_name (exampleEntries ! 3) \<notin> name_f ` set (normalizeFiles [exampleArchive])
   \<and> exampleEntries ! 0 \<in> set exampleEntries \<and> dir (exampleEntries ! 0)
   \<and> entry_name (exampleEntries ! 0) \<notin> name_f ` set (normalizeFiles [exampleArchive])"
proof -
  note c = zip_skipped_paths_absent [OF exampleArchive_facts(1) exampleArchive_facts(2)]
  note c1 = c [THEN conjunct1, THEN bspec, OF exampleEntries_facts(1)]
  note c2 = c [THEN conjunct2, THEN conjunct1]
  note c3 = c [THEN conjunct2, THEN conjunct2, THEN mp, OF exampleArchive_facts(3)]
  show ?thesis
    by (intro conjI exampleArchive_facts exampleEntries_facts c1
        c2 [THEN bspec, OF exampleEntries_facts(4), THEN mp, OF exampleEntries_facts(5)]
        c2 [THEN bspec, OF exampleEntries_facts(6), THEN mp, OF exampleEntries_facts(7)]
        c3 [THEN bspec, OF exampleEntries_facts(2), THEN mp, OF exampleEntries_facts(3)])
qed

text \<open>
  C5. The claim holds for the directory entries and for the entries under a path with the
  marker. For the entries whose name begins with a dot the code falls short of it: the test
  \<^verbatim>\<open>zipEntry.name.startsWith('.')\<close> reads the full path of the entry, so the dot file
  \<^verbatim>\<open>.eslintrc.json\<close> is skipped at the top level of the archive and becomes a document
  when it lies in the directory \<^verbatim>\<open>src/\<close>.
\<close>

theorem nested_dot_entry_kept:
  "isZipFile exampleNestedArchive = True
   \<and> file_zip exampleNestedArchive = Some exampleNestedEntries
   \<and> entry_name (exampleNestedEntries ! 0) = ''.eslintrc.json''
   \<and> entry_name (exampleNestedEntries ! 2) = ''src/'' @ ''.eslintrc.json''
   \<and> dir (exampleNestedEntries ! 2) = False
   \<and> startsWith ''.eslintrc.json'' ''.'' = True
   \<and> normalizeFiles [exampleNestedArchive] =
       [\<lparr>id_f = ''d2f3g4h5j'', name_f = ''src/.eslintrc.json'', content_f = ''{}'',
         size_f = 2, type_f = ''text/plain''\<rparr>]"
  by code_simp

text \<open>
  C9. A file that is not taken as an archive, has an allow-listed extension and whose text
  can be read contributes exactly one document: its content is the text read and its size
  the declared size of the file.
\<close>

theorem single_text_file_one_document:
  assumes "\<not> isZipFile f" and "isTextFile (file_name f)" and "file_text f = Some t"
  shows "normalizeFiles [f] =
    [\<lparr>id_f = file_rnd f, name_f = file_name f, content_f = t, size_f = file_size f,
      type_f = (if file_type f \<noteq> [] then file_type f else ''text/plain'')\<rparr>]"
  using assms by (simp add: normalizeFiles_def processFiles_def processFile_def)

theorem single_text_file_one_document_witness:
  "\<not> isZipFile exampleTextFile \<and> isTextFile (file_name exampleTextFile)
   \<and> file_text exampleTextFile = Some ''Hello''
   \<and> normalizeFiles [exampleTextFile] =
       [\<lparr>id_f = ''k3j9x0a1b'', name_f = ''README.MD'', content_f = ''Hello'', size_f = 5,
         type_f = ''text/plain''\<rparr>]"
  using single_text_file_one_document [OF exampleTextFile_facts] exampleTextFile_facts
  by (simp add: exampleTextFile_def)

text \<open>
  C10, as stated, fails for the media type of a single file: a file with an allow-listed
  extension and no declared media type gets the type \<^verbatim>\<open>text/plain\<close>.
\<close>

theorem single_file_type_counterexample:
  "\<not> isZipFile exampleTextFile \<and> file_type exampleTextFile = []
   \<and> map type_f (normalizeFiles [exampleTextFile]) = [''text/plain'']"
  by code_simp

text \<open>
  C10, amended. A document from an archive entry has media type \<^verbatim>\<open>text/plain\<close> and
  as size the length of its decoded text. A document from a single file keeps the declared
  size of the file; it keeps the declared media type too, except that a file with an
  allow-listed extension and an empty declared type gets \<^verbatim>\<open>text/plain\<close>.
\<close>

theorem document_size_and_type:
  "(isZipFile f \<longrightarrow>
      (\<forall>d \<in> set (normalizeFiles [f]).
         type_f d = ''text/plain'' \<and> size_f d = length (content_f d)))
   \<and> (\<not> isZipFile f \<longrightarrow>
      (\<forall>d \<in> set (normalizeFiles [f]).
         size_f d = file_size f
         \<and> type_f d = (if file_type f = [] \<and> isTextFile (file_name f) then ''text/plain''
                        else file_type f)))"
proof -
  have zip: "type_f d = ''text/plain'' \<and> size_f d = length (content_f d)"
    if z: "isZipFile f" and d: "d \<in> set (normalizeFiles [f])" for d
  proof (cases "file_zip f")
    case None
    with z d show ?thesis by (simp add: normalizeFiles_no_zip)
  next
    case (Some entries)
    from zip_documents [OF z Some d] show ?thesis by auto
  qed
  have single: "size_f d = file_size f
         \<and> type_f d = (if file_type f = [] \<and> isTextFile (file_name f) then ''text/plain''
                        else file_type f)"
    if "\<not> isZipFile f" and "d \<in> set (normalizeFiles [f])" for d
    using that
    by (auto simp: normalizeFiles_def processFiles_def processFile_def
        split: if_splits option.splits)
  from zip single show ?thesis by blast
qed

theorem document_size_and_type_witness:
  "isZipFile exampleArchive
   \<and> hd (normalizeFiles [exampleArchive]) \<in> set (normalizeFiles [exampleArchive])
   \<and> type_f (hd (normalizeFiles [exampleArchive])) = ''text/plain''
   \<and> size_f (hd (normalizeFiles [exampleArchive]))
       = length (content_f (hd (normalizeFiles [exampleArchive])))
   \<and> \<not> isZipFile exampleTextFile
   \<and> hd (normalizeFiles [exampleTextFile]) \<in> set (normalizeFiles [exampleTextFile])
   \<and> size_f (hd (normalizeFiles [exampleTextFile])) = file_size exampleTextFile
   \<and> type_f (hd (normalizeFiles [exampleTextFile]))
       = (if file_type exampleTextFile = [] \<and> isTextFile (file_name exampleTextFile)
          then ''text/plain'' else file_type exampleTextFile)"
proof -
  have n: "hd (normalizeFiles [exampleTextFile]) \<in> set (normalizeFiles [exampleTextFile])"
    by code_simp
  note z = document_size_and_type [of exampleArchive, THEN conjunct1, THEN mp,
      OF exampleArchive_facts(1), THEN bspec, OF exampleEntries_facts(1)]
  note t = document_size_and_type [of exampleTextFile, THEN conjunct2, THEN mp,
      OF exampleTextFile_facts(1), THEN bspec, OF n]
  show ?thesis
    by (intro conjI exampleArchive_facts(1) exampleEntries_facts(1) z [THEN conjunct1]
        z [THEN conjunct2] exampleTextFile_facts(1) n t [THEN conjunct1] t [THEN conjunct2])
qed

section \<open>Properties of the context assembly\<close>

lemma trimEnd_Nil_iff: "trimEnd s = [] \<longleftrightarrow> (\<forall>c \<in> set s. isWhiteSpace c)"
  by (induction s) (auto simp: trimEnd_def)

lemma trimEnd_append:
  "trimEnd (xs @ ys) = (if trimEnd ys = [] then trimEnd xs else xs @ trimEnd ys)"
  by (induction xs) (auto simp: trimEnd_def)

lemma trimStart_append:
  "c \<in> set xs \<Longrightarrow> \<not> isWhiteSpace c \<Longrightarrow> trimStart (xs @ ys) = trimStart xs @ ys"
  by (simp add: trimStart_def dropWhile_append1)

lemma templateHead_letter: "CHR ''Y'' \<in> set templateHead"
  by (simp add: templateHead_def)

lemma templateTail_letter: "CHR ''.'' \<in> set templateTail"
  by (simp add: templateTail_def)

lemma not_white: "\<not> isWhiteSpace CHR ''Y''" "\<not> isWhiteSpace CHR ''.''"
  by (simp_all add: isWhiteSpace_def)

lemma buildSystemInstruction_eq:
  "buildSystemInstruction context = trimStart templateHead @ context @ trimEnd templateTail"
proof -
  have tail: "trimEnd templateTail \<noteq> []"
    using templateTail_letter not_white(2) by (auto simp: trimEnd_Nil_iff)
  have "trimStart (templateHead @ context @ templateTail)
          = trimStart templateHead @ context @ templateTail"
    by (rule trimStart_append [OF templateHead_letter not_white(1)])
  then show ?thesis
    using tail by (simp add: buildSystemInstruction_def trim_def trimEnd_append)
qed

lemma join_Cons: "join (x # xs) sep = x @ (if xs = [] then [] else sep @ join xs sep)"
  by (cases xs) simp_all

lemma join_append_Cons:
  "join (xs @ y # ys) sep =
     (if xs = [] then [] else join xs sep @ sep) @ y @ (if ys = [] then [] else sep @ join ys sep)"
  by (induction xs) (auto simp: join_Cons)

lemma knowledgeBaseOf_names_contents:
  assumes eq: "map (\<lambda>f. (name_f f, content_f f)) D = map (\<lambda>f. (name_f f, content_f f)) D'"
  shows "knowledgeBaseOf D = knowledgeBaseOf D'"
proof -
  have key: "map documentBlock E =
        map (\<lambda>p. ''--- Document: '' @ fst p @ '' ---\<newline>'' @ snd p @ ''\<newline>'')
          (map (\<lambda>f. (name_f f, content_f f)) E)" for E
    by (simp add: documentBlock_def)
  have "map documentBlock D = map documentBlock D'"
    by (simp only: key eq)
  then show ?thesis by (simp add: knowledgeBaseOf_def)
qed

lemma map_split_nth:
  assumes "i < length xs"
  shows "map f xs = map f (take i xs) @ f (xs ! i) # map f (drop (Suc i) xs)"
proof -
  have "map f xs = take i (map f xs) @ map f xs ! i # drop (Suc i) (map f xs)"
    by (rule id_take_nth_drop) (simp add: assms)
  also have "\<dots> = map f (take i xs) @ f (xs ! i) # map f (drop (Suc i) xs)"
    using assms by (simp add: take_map drop_map)
  finally show ?thesis .
qed

lemma templateHead_marker:
  \<open>\<exists>h. trimStart templateHead = h @ ''--- START KNOWLEDGE BASE ---\<newline>    ''\<close>
proof -
  have d: \<open>drop 191 (trimStart templateHead) = ''--- START KNOWLEDGE BASE ---\<newline>    ''\<close>
    by (simp add: trimStart_def templateHead_def isWhiteSpace_def)
  note e = append_take_drop_id [of 191 "trimStart templateHead", symmetric, unfolded d]
  show ?thesis by (intro exI) (rule e)
qed

lemma templateTail_marker:
  \<open>\<exists>t. trimEnd templateTail = ''\<newline>    --- END KNOWLEDGE BASE ---'' @ t\<close>
proof -
  obtain rest where rest: \<open>templateTail = ''\<newline>    --- END KNOWLEDGE BASE ---'' @ rest\<close>
    and dot: \<open>CHR ''.'' \<in> set rest\<close>
    by (simp add: templateTail_def)
  from dot not_white(2) have "trimEnd rest \<noteq> []"
    by (auto simp: trimEnd_Nil_iff)
  then have e: \<open>trimEnd templateTail = ''\<newline>    --- END KNOWLEDGE BASE ---'' @ trimEnd rest\<close>
    unfolding rest by (simp only: trimEnd_append if_False)
  show ?thesis by (intro exI) (rule e)
qed

lemma buildSystemInstruction_markers:
  \<open>\<exists>h t. \<forall>context. buildSystemInstruction context =
     h @ ''--- START KNOWLEDGE BASE ---\<newline>    '' @ context
       @ ''\<newline>    --- END KNOWLEDGE BASE ---'' @ t\<close>
proof -
  from templateHead_marker obtain h where
    h: \<open>trimStart templateHead = h @ ''--- START KNOWLEDGE BASE ---\<newline>    ''\<close> ..
  from templateTail_marker obtain t where
    t: \<open>trimEnd templateTail = ''\<newline>    --- END KNOWLEDGE BASE ---'' @ t\<close> ..
  have e: \<open>\<forall>context. buildSystemInstruction context =
     h @ ''--- START KNOWLEDGE BASE ---\<newline>    '' @ context
       @ ''\<newline>    --- END KNOWLEDGE BASE ---'' @ t\<close>
    unfolding buildSystemInstruction_eq h t by simp
  show ?thesis by (intro exI) (rule e)
qed

lemma concat_before: "(if xs = [] then [] else join xs sep @ sep) = concat (map (\<lambda>x. x @ sep) xs)"
  by (induction xs) (auto simp: join_Cons)

lemma concat_after: "(if xs = [] then [] else sep @ join xs sep) = concat (map (\<lambda>x. sep @ x) xs)"
  by (induction xs) (auto simp: join_Cons)

lemma join_nth:
  assumes "i < length xs"
  shows "join (map f xs) sep =
    concat (map (\<lambda>x. f x @ sep) (take i xs)) @ f (xs ! i)
      @ concat (map (\<lambda>x. sep @ f x) (drop (Suc i) xs))"
proof -
  let ?pre = "map f (take i xs)" and ?post = "map f (drop (Suc i) xs)"
  have "join (map f xs) sep = join (?pre @ f (xs ! i) # ?post) sep"
    using map_split_nth [OF assms, of f] by (rule arg_cong [where f = "\<lambda>l. join l sep"])
  also have "\<dots> = (if ?pre = [] then [] else join ?pre sep @ sep) @ f (xs ! i)
      @ (if ?post = [] then [] else sep @ join ?post sep)"
    by (rule join_append_Cons)
  also have "\<dots> = concat (map (\<lambda>x. x @ sep) ?pre) @ f (xs ! i) @ concat (map (\<lambda>x. sep @ x) ?post)"
    by (simp only: concat_before concat_after)
  also have "\<dots> = concat (map (\<lambda>x. f x @ sep) (take i xs)) @ f (xs ! i)
      @ concat (map (\<lambda>x. sep @ f x) (drop (Suc i) xs))"
    by (simp add: comp_def)
  finally show ?thesis .
qed

lemma knowledgeBaseOf_nth:
  assumes "i < length D"
  shows "knowledgeBaseOf D =
    concat (map (\<lambda>f. ''--- Document: '' @ name_f f @ '' ---\<newline>'' @ content_f f @ ''\<newline>\<newline>'')
       (take i D))
    @ ''--- Document: '' @ name_f (D ! i) @ '' ---\<newline>'' @ content_f (D ! i) @ ''\<newline>''
    @ concat (map (\<lambda>f. ''\<newline>--- Document: '' @ name_f f @ '' ---\<newline>'' @ content_f f @ ''\<newline>'')
       (drop (Suc i) D))"
  unfolding knowledgeBaseOf_def join_nth [OF assms, of documentBlock "''\<newline>''"]
  by (simp add: documentBlock_def)

lemma knowledgeBaseOf_Nil: "knowledgeBaseOf [] = []"
  by (simp add: knowledgeBaseOf_def)

lemma concat_rotate:
  "concat (map (\<lambda>x. sep @ g x) xs) @ sep = sep @ concat (map (\<lambda>x. g x @ sep) xs)"
  by (induction xs) simp_all

lemma concat_after_nth:
  assumes "k < length xs"
  shows "concat (map (\<lambda>x. sep @ g x) xs) =
    sep @ concat (map (\<lambda>x. g x @ sep) (take k xs)) @ g (xs ! k)
      @ concat (map (\<lambda>x. sep @ g x) (drop (Suc k) xs))"
proof -
  have "concat (map (\<lambda>x. sep @ g x) xs)
      = concat (map (\<lambda>x. sep @ g x) (take k xs) @ (sep @ g (xs ! k))
          # map (\<lambda>x. sep @ g x) (drop (Suc k) xs))"
    using map_split_nth [OF assms, of "\<lambda>x. sep @ g x"] by (rule arg_cong [where f = concat])
  also have "\<dots> = concat (map (\<lambda>x. sep @ g x) (take k xs)) @ (sep @ g (xs ! k))
          @ concat (map (\<lambda>x. sep @ g x) (drop (Suc k) xs))"
    by simp
  also have "\<dots> = (concat (map (\<lambda>x. sep @ g x) (take k xs)) @ sep) @ g (xs ! k)
          @ concat (map (\<lambda>x. sep @ g x) (drop (Suc k) xs))"
    by simp
  also have "\<dots> = (sep @ concat (map (\<lambda>x. g x @ sep) (take k xs))) @ g (xs ! k)
          @ concat (map (\<lambda>x. sep @ g x) (drop (Suc k) xs))"
    by (simp only: concat_rotate)
  finally show ?thesis by simp
qed

lemma join_nth_nth:
  assumes "i < j" and "j < length xs"
  shows "join (map f xs) sep =
    concat (map (\<lambda>x. f x @ sep) (take i xs)) @ f (xs ! i) @ sep
      @ concat (map (\<lambda>x. f x @ sep) (take (j - Suc i) (drop (Suc i) xs))) @ f (xs ! j)
      @ concat (map (\<lambda>x. sep @ f x) (drop (Suc j) xs))"
proof -
  from assms have i: "i < length xs" by simp
  define E where "E = drop (Suc i) xs"
  from assms have k: "j - Suc i < length E" by (simp add: E_def)
  have Ek: "E ! (j - Suc i) = xs ! j" using assms by (simp add: E_def)
  have Ed: "drop (Suc (j - Suc i)) E = drop (Suc j) xs" using assms by (simp add: E_def)
  have "join (map f xs) sep =
      concat (map (\<lambda>x. f x @ sep) (take i xs)) @ f (xs ! i) @ concat (map (\<lambda>x. sep @ f x) E)"
    unfolding E_def by (rule join_nth [OF i])
  also have "concat (map (\<lambda>x. sep @ f x) E) =
      sep @ concat (map (\<lambda>x. f x @ sep) (take (j - Suc i) E)) @ f (E ! (j - Suc i))
        @ concat (map (\<lambda>x. sep @ f x) (drop (Suc (j - Suc i)) E))"
    by (rule concat_after_nth [OF k])
  finally show ?thesis
    unfolding Ek Ed unfolding E_def by simp
qed

lemma knowledgeBaseOf_nth_nth:
  assumes "i < j" and "j < length D"
  shows "knowledgeBaseOf D =
    concat (map (\<lambda>f. ''--- Document: '' @ name_f f @ '' ---\<newline>'' @ content_f f @ ''\<newline>\<newline>'')
       (take i D))
    @ ''--- Document: '' @ name_f (D ! i) @ '' ---\<newline>'' @ content_f (D ! i) @ ''\<newline>\<newline>''
    @ concat (map (\<lambda>f. ''--- Document: '' @ name_f f @ '' ---\<newline>'' @ content_f f @ ''\<newline>\<newline>'')
       (take (j - Suc i) (drop (Suc i) D)))
    @ ''--- Document: '' @ name_f (D ! j) @ '' ---\<newline>'' @ content_f (D ! j) @ ''\<newline>''
    @ concat (map (\<lambda>f. ''\<newline>--- Document: '' @ name_f f @ '' ---\<newline>'' @ content_f f @ ''\<newline>'')
       (drop (Suc j) D))"
  unfolding knowledgeBaseOf_def join_nth_nth [OF assms, of documentBlock "''\<newline>''"]
  by (simp add: documentBlock_def)

lemma scenario_hello_world:
  "knowledgeBaseOf exampleDocuments
     = ''--- Document: readme.md ---\<newline>Hello\<newline>\<newline>--- Document: guide.txt ---\<newline>World\<newline>''"
  by (simp add: exampleDocuments_def knowledgeBaseOf_def documentBlock_def)

text \<open>
  C1. The instruction built from a document list is a function of the names and contents
  of the documents in their order: two lists that agree on these give the same string,
  whatever the ids. It is a fixed text around the context, which stands between the start
  and the end marker. The context of the empty list is empty; for every position \<open>i\<close> of
  a list the context is, in this order, for each earlier document of the list its
  delimiter line with its name, its content and the separator, then the delimiter line
  with the name of document \<open>i\<close> and its content, then the same for each later document
  of the list; so for \<open>i < j\<close> the content of document \<open>i\<close> stands before the content
  of document \<open>j\<close>, with exactly the documents between them in between.
\<close>

theorem assembly_in_document_order:
  \<open>(map (\<lambda>f. (name_f f, content_f f)) D = map (\<lambda>f. (name_f f, content_f f)) D'
      \<longrightarrow> buildSystemInstruction (knowledgeBaseOf D) = buildSystemInstruction (knowledgeBaseOf D'))
   \<and> (\<exists>h t. \<forall>E. buildSystemInstruction (knowledgeBaseOf E) =
         h @ ''--- START KNOWLEDGE BASE ---\<newline>    '' @ knowledgeBaseOf E
           @ ''\<newline>    --- END KNOWLEDGE BASE ---'' @ t)
   \<and> knowledgeBaseOf [] = []
   \<and> (\<forall>i. i < length D \<longrightarrow>
        knowledgeBaseOf D =
          concat (map (\<lambda>f. ''--- Document: '' @ name_f f @ '' ---\<newline>'' @ content_f f @ ''\<newline>\<newline>'')
             (take i D))
          @ ''--- Document: '' @ name_f (D ! i) @ '' ---\<newline>'' @ content_f (D ! i) @ ''\<newline>''
          @ concat (map (\<lambda>f. ''\<newline>--- Document: '' @ name_f f @ '' ---\<newline>'' @ content_f f @ ''\<newline>'')
             (drop (Suc i) D)))
   \<and> (\<forall>i j. i < j \<and> j < length D \<longrightarrow>
        knowledgeBaseOf D =
          concat (map (\<lambda>f. ''--- Document: '' @ name_f f @ '' ---\<newline>'' @ content_f f @ ''\<newline>\<newline>'')
             (take i D))
          @ ''--- Document: '' @ name_f (D ! i) @ '' ---\<newline>'' @ content_f (D ! i) @ ''\<newline>\<newline>''
          @ concat (map (\<lambda>f. ''--- Document: '' @ name_f f @ '' ---\<newline>'' @ content_f f @ ''\<newline>\<newline>'')
             (take (j - Suc i) (drop (Suc i) D)))
          @ ''--- Document: '' @ name_f (D ! j) @ '' ---\<newline>'' @ content_f (D ! j) @ ''\<newline>''
          @ concat (map (\<lambda>f. ''\<newline>--- Document: '' @ name_f f @ '' ---\<newline>'' @ content_f f @ ''\<newline>'')
             (drop (Suc j) D)))\<close>
proof -
  have det: "buildSystemInstruction (knowledgeBaseOf D) = buildSystemInstruction (knowledgeBaseOf D')"
    if "map (\<lambda>f. (name_f f, content_f f)) D = map (\<lambda>f. (name_f f, content_f f)) D'"
    using knowledgeBaseOf_names_contents [OF that] by (rule arg_cong)
  from buildSystemInstruction_markers obtain h t where
    ht: \<open>\<forall>context. buildSystemInstruction context =
     h @ ''--- START KNOWLEDGE BASE ---\<newline>    '' @ context
       @ ''\<newline>    --- END KNOWLEDGE BASE ---'' @ t\<close>
    by (elim exE)
  have wrap: \<open>\<exists>h t. \<forall>E. buildSystemInstruction (knowledgeBaseOf E) =
         h @ ''--- START KNOWLEDGE BASE ---\<newline>    '' @ knowledgeBaseOf E
           @ ''\<newline>    --- END KNOWLEDGE BASE ---'' @ t\<close>
    by (intro exI allI) (rule ht [THEN spec])
  show ?thesis
  proof (intro conjI impI allI)
    fix i j assume "i < j \<and> j < length D"
    then have "i < j" and "j < length D" by simp_all
    then show \<open>knowledgeBaseOf D =
          concat (map (\<lambda>f. ''--- Document: '' @ name_f f @ '' ---\<newline>'' @ content_f f @ ''\<newline>\<newline>'')
             (take i D))
          @ ''--- Document: '' @ name_f (D ! i) @ '' ---\<newline>'' @ content_f (D ! i) @ ''\<newline>\<newline>''
          @ concat (map (\<lambda>f. ''--- Document: '' @ name_f f @ '' ---\<newline>'' @ content_f f @ ''\<newline>\<newline>'')
             (take (j - Suc i) (drop (Suc i) D)))
          @ ''--- Document: '' @ name_f (D ! j) @ '' ---\<newline>'' @ content_f (D ! j) @ ''\<newline>''
          @ concat (map (\<lambda>f. ''\<newline>--- Document: '' @ name_f f @ '' ---\<newline>'' @ content_f f @ ''\<newline>'')
             (drop (Suc j) D))\<close>
      by (rule knowledgeBaseOf_nth_nth)
  qed (rule det wrap knowledgeBaseOf_Nil knowledgeBaseOf_nth | assumption)+
qed

theorem assembly_in_document_order_witness:
  "map (\<lambda>f. (name_f f, content_f f)) exampleDocuments
     = map (\<lambda>f. (name_f f, content_f f)) exampleDocumentsAgain
   \<and> exampleDocuments \<noteq> exampleDocumentsAgain
   \<and> buildSystemInstruction (knowledgeBaseOf exampleDocuments)
     = buildSystemInstruction (knowledgeBaseOf exampleDocumentsAgain)
   \<and> (0::nat) < 1 \<and> 1 < length exampleDocuments
   \<and> knowledgeBaseOf exampleDocuments
     = ''--- Document: readme.md ---\<newline>Hello\<newline>\<newline>--- Document: guide.txt ---\<newline>World\<newline>''"
proof -
  have h1: "map (\<lambda>f. (name_f f, content_f f)) exampleDocuments
     = map (\<lambda>f. (name_f f, content_f f)) exampleDocumentsAgain"
    by (simp add: exampleDocuments_def exampleDocumentsAgain_def)
  have h2: "(0::nat) < 1 \<and> 1 < length exampleDocuments"
    by (simp add: exampleDocuments_def)
  have h3: "exampleDocuments \<noteq> exampleDocumentsAgain"
    by (simp add: exampleDocuments_def exampleDocumentsAgain_def)
  note c = assembly_in_document_order [of exampleDocuments exampleDocumentsAgain]
  note c1 = c [THEN conjunct1, THEN mp, OF h1]
  note c5 = c [THEN conjunct2, THEN conjunct2, THEN conjunct2, THEN conjunct2,
      THEN spec, THEN spec, THEN mp, OF h2]
  from c5 have k: "knowledgeBaseOf exampleDocuments
     = ''--- Document: readme.md ---\<newline>Hello\<newline>\<newline>--- Document: guide.txt ---\<newline>World\<newline>''"
    by (simp add: exampleDocuments_def)
  show ?thesis
    by (intro conjI h1 h3 c1 h2 [THEN conjunct1] h2 [THEN conjunct2] k)
qed

section \<open>Properties of a turn and of the session\<close>

lemma streamErrorMessage_nonempty: "streamErrorMessage e \<noteq> []"
  by (simp add: streamErrorMessage_def)

lemma foldl_streamStep:
  "\<exists>fu'. foldl (streamStep onChunk) (ft, fu, (s, fr)) cs =
      (ft @ concat (map (\<lambda>c. case chunk_text c of None \<Rightarrow> [] | Some t \<Rightarrow> t) cs), fu',
       (s\<lparr>chatState := (chatState s)\<lparr>streamingText := streamingText (chatState s)
            @ concat (map (\<lambda>c. case chunk_text c of None \<Rightarrow> [] | Some t \<Rightarrow> t) cs)\<rparr>\<rparr>,
        fr @ concat (map (\<lambda>c. case chunk_text c of None \<Rightarrow> [] | Some t \<Rightarrow> t) cs)))
    \<and> (0 \<le> usagePrompt fu \<and> 0 \<le> usageCandidates fu
         \<and> list_all (\<lambda>c. case usageMetadata c of
                      None \<Rightarrow> True
                    | Some md \<Rightarrow> 0 \<le> orZero (md_promptTokenCount md)
                                 \<and> 0 \<le> orZero (md_candidatesTokenCount md)) cs
         \<longrightarrow> 0 \<le> usagePrompt fu' \<and> 0 \<le> usageCandidates fu')"
proof (induction cs arbitrary: ft fu s fr)
  case Nil
  show ?case by simp
next
  case (Cons c cs)
  obtain ft1 fu1 s1 fr1 where step: "streamStep onChunk (ft, fu, (s, fr)) c = (ft1, fu1, (s1, fr1))"
    by (metis prod.exhaust)
  let ?t = "case chunk_text c of None \<Rightarrow> [] | Some t \<Rightarrow> t"
  from step have ft1: "ft1 = ft @ ?t" and fr1: "fr1 = fr @ ?t"
    and s1: "s1 = s\<lparr>chatState := (chatState s)\<lparr>streamingText := streamingText (chatState s) @ ?t\<rparr>\<rparr>"
    by (auto simp: streamStep_def onChunk_def split: option.splits if_splits)
  from step have fu1: "0 \<le> usagePrompt fu \<and> 0 \<le> usageCandidates fu
      \<and> (case usageMetadata c of None \<Rightarrow> True
          | Some md \<Rightarrow> 0 \<le> orZero (md_promptTokenCount md) \<and> 0 \<le> orZero (md_candidatesTokenCount md))
      \<longrightarrow> 0 \<le> usagePrompt fu1 \<and> 0 \<le> usageCandidates fu1"
    by (auto simp: streamStep_def usagePrompt_def usageCandidates_def
        split: option.splits if_splits)
  from Cons.IH [of ft1 fu1 s1 fr1] obtain fu' where
    IH: "foldl (streamStep onChunk) (ft1, fu1, (s1, fr1)) cs =
      (ft1 @ concat (map (\<lambda>c. case chunk_text c of None \<Rightarrow> [] | Some t \<Rightarrow> t) cs), fu',
       (s1\<lparr>chatState := (chatState s1)\<lparr>streamingText := streamingText (chatState s1)
            @ concat (map (\<lambda>c. case chunk_text c of None \<Rightarrow> [] | Some t \<Rightarrow> t) cs)\<rparr>\<rparr>,
        fr1 @ concat (map (\<lambda>c. case chunk_text c of None \<Rightarrow> [] | Some t \<Rightarrow> t) cs)))"
    and IH2: "0 \<le> usagePrompt fu1 \<and> 0 \<le> usageCandidates fu1
         \<and> list_all (\<lambda>c. case usageMetadata c of
                      None \<Rightarrow> True
                    | Some md \<Rightarrow> 0 \<le> orZero (md_promptTokenCount md)
                                 \<and> 0 \<le> orZero (md_candidatesTokenCount md)) cs
         \<longrightarrow> 0 \<le> usagePrompt fu' \<and> 0 \<le> usageCandidates fu'"
    by blast
  show ?case
    apply (rule exI [where x = fu'])
    using IH IH2 fu1 by (simp add: step ft1 fr1 s1)
qed

lemma sendMessageStream_result:
  "\<exists>fu'. sendMessageStream st onChunk (s, []) =
      ((s\<lparr>chatState := (chatState s)\<lparr>streamingText := streamingText (chatState s)
            @ concat (map (\<lambda>c. case chunk_text c of None \<Rightarrow> [] | Some t \<Rightarrow> t) (chunks st))\<rparr>\<rparr>,
        concat (map (\<lambda>c. case chunk_text c of None \<Rightarrow> [] | Some t \<Rightarrow> t) (chunks st))),
       (case ending st of
          Completes \<Rightarrow> Inr (concat (map (\<lambda>c. case chunk_text c of None \<Rightarrow> [] | Some t \<Rightarrow> t) (chunks st)), fu')
        | Throws e \<Rightarrow> Inl (newError (streamErrorMessage e))))
    \<and> (nonNegativeUsage st \<longrightarrow> 0 \<le> usagePrompt fu' \<and> 0 \<le> usageCandidates fu')"
proof -
  from foldl_streamStep [of "[]" None s "[]" "chunks st"] obtain fu' where
    f: "foldl (streamStep onChunk) ([], None, (s, [])) (chunks st) =
      ([] @ concat (map (\<lambda>c. case chunk_text c of None \<Rightarrow> [] | Some t \<Rightarrow> t) (chunks st)), fu',
       (s\<lparr>chatState := (chatState s)\<lparr>streamingText := streamingText (chatState s)
            @ concat (map (\<lambda>c. case chunk_text c of None \<Rightarrow> [] | Some t \<Rightarrow> t) (chunks st))\<rparr>\<rparr>,
        [] @ concat (map (\<lambda>c. case chunk_text c of None \<Rightarrow> [] | Some t \<Rightarrow> t) (chunks st))))"
    and u: "0 \<le> usagePrompt None \<and> 0 \<le> usageCandidates None
         \<and> list_all (\<lambda>c. case usageMetadata c of
                      None \<Rightarrow> True
                    | Some md \<Rightarrow> 0 \<le> orZero (md_promptTokenCount md)
                                 \<and> 0 \<le> orZero (md_candidatesTokenCount md)) (chunks st)
         \<longrightarrow> 0 \<le> usagePrompt fu' \<and> 0 \<le> usageCandidates fu'"
    by blast
  show ?thesis
    apply (rule exI [where x = fu'])
    using f u
    by (simp add: sendMessageStream_def nonNegativeUsage_def usagePrompt_def usageCandidates_def
        split: StreamEnd.splits)
qed

lemma handleSendMessage_guard:
  "trim (inputMessage s) = [] \<or> chatInstance s = None \<or> isLoading (chatState s)
   \<Longrightarrow> handleSendMessage turn s = s"
  by (auto simp: handleSendMessage_def)

lemma handleSendMessage_throws:
  assumes "trim (inputMessage s) \<noteq> []" and "chatInstance s \<noteq> None"
    and "\<not> isLoading (chatState s)" and "ending (stream turn) = Throws e"
  shows "handleSendMessage turn s =
    s\<lparr>inputMessage := [],
      chatState := (chatState s)
        \<lparr>messages := messages (chatState s) @
           [\<lparr>id_m = toString (userClock turn), role = USER, text_m = trim (inputMessage s),
             timestamp = userClock turn, isError = False\<rparr>,
            \<lparr>id_m = toString (endClock turn), role = MODEL, text_m = streamErrorMessage e,
             timestamp = endClock turn, isError = True\<rparr>],
         isLoading := False, streamingText := []\<rparr>\<rparr>"
proof -
  let ?s1 = "s\<lparr>inputMessage := [],
      chatState := (chatState s)
        \<lparr>messages := messages (chatState s) @
           [\<lparr>id_m = toString (userClock turn), role = USER, text_m = trim (inputMessage s),
             timestamp = userClock turn, isError = False\<rparr>],
         isLoading := True, streamingText := []\<rparr>\<rparr>"
  from sendMessageStream_result [of "stream turn" ?s1] assms(4) obtain s2 fr where
    r: "sendMessageStream (stream turn) onChunk (?s1, []) =
          ((s2, fr), Inl (newError (streamErrorMessage e)))"
    and s2: "s2 = ?s1\<lparr>chatState := (chatState ?s1)\<lparr>streamingText :=
        streamingText (chatState ?s1) @ fr\<rparr>\<rparr>"
    by auto
  show ?thesis
    using assms(1-3) streamErrorMessage_nonempty [of e]
    by (auto simp: handleSendMessage_def Let_def r s2 newError_def)
qed

lemma handleSendMessage_completes:
  assumes "trim (inputMessage s) \<noteq> []" and "chatInstance s \<noteq> None"
    and "\<not> isLoading (chatState s)" and "ending (stream turn) = Completes"
  shows "\<exists>usage. handleSendMessage turn s =
    s\<lparr>inputMessage := [],
      chatState := (chatState s)
        \<lparr>messages := messages (chatState s) @
           [\<lparr>id_m = toString (userClock turn), role = USER, text_m = trim (inputMessage s),
             timestamp = userClock turn, isError = False\<rparr>,
            \<lparr>id_m = toString (endClock turn + 1), role = MODEL,
             text_m = concat (map (\<lambda>c. case chunk_text c of None \<Rightarrow> [] | Some t \<Rightarrow> t)
                        (chunks (stream turn))),
             timestamp = endClock turn, isError = False\<rparr>],
         isLoading := False, streamingText := [],
         totalInputTokens := totalInputTokens (chatState s) + usagePrompt usage,
         totalOutputTokens := totalOutputTokens (chatState s) + usageCandidates usage\<rparr>\<rparr>
    \<and> (nonNegativeUsage (stream turn) \<longrightarrow> 0 \<le> usagePrompt usage \<and> 0 \<le> usageCandidates usage)"
proof -
  let ?s1 = "s\<lparr>inputMessage := [],
      chatState := (chatState s)
        \<lparr>messages := messages (chatState s) @
           [\<lparr>id_m = toString (userClock turn), role = USER, text_m = trim (inputMessage s),
             timestamp = userClock turn, isError = False\<rparr>],
         isLoading := True, streamingText := []\<rparr>\<rparr>"
  let ?X = "concat (map (\<lambda>c. case chunk_text c of None \<Rightarrow> [] | Some t \<Rightarrow> t)
                        (chunks (stream turn)))"
  from sendMessageStream_result [of "stream turn" ?s1] assms(4) obtain s2 usage where
    r: "sendMessageStream (stream turn) onChunk (?s1, []) = ((s2, ?X), Inr (?X, usage))"
    and s2: "s2 = ?s1\<lparr>chatState := (chatState ?s1)\<lparr>streamingText :=
        streamingText (chatState ?s1) @ ?X\<rparr>\<rparr>"
    and u: "nonNegativeUsage (stream turn) \<longrightarrow> 0 \<le> usagePrompt usage \<and> 0 \<le> usageCandidates usage"
    by auto
  show ?thesis
    apply (rule exI [where x = usage])
    using assms(1-3) u
    by (auto simp: handleSendMessage_def Let_def r s2)
qed

lemma handleSendMessage_frame:
  "arrays (handleSendMessage turn s) = arrays s \<and> nextRef (handleSendMessage turn s) = nextRef s
   \<and> files (handleSendMessage turn s) = files s \<and> savedKBs (handleSendMessage turn s) = savedKBs s
   \<and> localStorage (handleSendMessage turn s) = localStorage s"
proof (cases "trim (inputMessage s) = [] \<or> chatInstance s = None \<or> isLoading (chatState s)")
  case True
  then show ?thesis by (simp add: handleSendMessage_guard)
next
  case False
  then have g: "trim (inputMessage s) \<noteq> []" "chatInstance s \<noteq> None" "\<not> isLoading (chatState s)"
    by auto
  show ?thesis
  proof (cases "ending (stream turn)")
    case Completes
    from handleSendMessage_completes [OF g Completes] obtain usage where
      "handleSendMessage turn s =
        s\<lparr>inputMessage := [],
          chatState := (chatState s)
            \<lparr>messages := messages (chatState s) @
               [\<lparr>id_m = toString (userClock turn), role = USER, text_m = trim (inputMessage s),
                 timestamp = userClock turn, isError = False\<rparr>,
                \<lparr>id_m = toString (endClock turn + 1), role = MODEL,
                 text_m = concat (map (\<lambda>c. case chunk_text c of None \<Rightarrow> [] | Some t \<Rightarrow> t)
                            (chunks (stream turn))),
                 timestamp = endClock turn, isError = False\<rparr>],
             isLoading := False, streamingText := [],
             totalInputTokens := totalInputTokens (chatState s) + usagePrompt usage,
             totalOutputTokens := totalOutputTokens (chatState s) + usageCandidates usage\<rparr>\<rparr>"
      by blast
    then show ?thesis by simp
  next
    case (Throws e)
    show ?thesis by (simp add: handleSendMessage_throws [OF g Throws])
  qed
qed

lemma handleSendMessage_counters:
  assumes "nonNegativeUsage (stream turn)"
  shows "totalInputTokens (chatState s) \<le> totalInputTokens (chatState (handleSendMessage turn s))
    \<and> totalOutputTokens (chatState s) \<le> totalOutputTokens (chatState (handleSendMessage turn s))"
proof (cases "trim (inputMessage s) = [] \<or> chatInstance s = None \<or> isLoading (chatState s)")
  case True
  then show ?thesis by (simp add: handleSendMessage_guard)
next
  case False
  then have g: "trim (inputMessage s) \<noteq> []" "chatInstance s \<noteq> None" "\<not> isLoading (chatState s)"
    by auto
  show ?thesis
  proof (cases "ending (stream turn)")
    case Completes
    from handleSendMessage_completes [OF g Completes] assms obtain usage where
      "handleSendMessage turn s =
        s\<lparr>inputMessage := [],
          chatState := (chatState s)
            \<lparr>messages := messages (chatState s) @
               [\<lparr>id_m = toString (userClock turn), role = USER, text_m = trim (inputMessage s),
                 timestamp = userClock turn, isError = False\<rparr>,
                \<lparr>id_m = toString (endClock turn + 1), role = MODEL,
                 text_m = concat (map (\<lambda>c. case chunk_text c of None \<Rightarrow> [] | Some t \<Rightarrow> t)
                            (chunks (stream turn))),
                 timestamp = endClock turn, isError = False\<rparr>],
             isLoading := False, streamingText := [],
             totalInputTokens := totalInputTokens (chatState s) + usagePrompt usage,
             totalOutputTokens := totalOutputTokens (chatState s) + usageCandidates usage\<rparr>\<rparr>"
      and "0 \<le> usagePrompt usage" and "0 \<le> usageCandidates usage"
      by blast
    then show ?thesis by simp
  next
    case (Throws e)
    show ?thesis by (simp add: handleSendMessage_throws [OF g Throws])
  qed
qed

lemma createChatSession_Inr:
  "createChatSession env context = Inr chat \<Longrightarrow>
     (\<exists>k. getClient env = Inr k)
     \<and> chat = \<lparr>chat_model = MODEL_NAME, chat_systemInstruction = buildSystemInstruction context\<rparr>"
  by (auto simp: createChatSession_def Let_def split: sum.splits option.splits)

lemma handleStartSession_opens:
  assumes "liveFiles s \<noteq> []"
    and "createChatSession env (knowledgeBaseOf (liveFiles s)) = Inr chat"
  shows "handleStartSession env s =
      s\<lparr>chatInstance := Some chat, sessionActive := True,
        chatState := (chatState s)
          \<lparr>messages := [greeting (length (liveFiles s)) (startClock env)],
           isLoading := False, streamingText := [],
           totalInputTokens := estimateTokenCount env
             (buildSystemInstruction (knowledgeBaseOf (liveFiles s))),
           totalOutputTokens := 0\<rparr>\<rparr>"
  using assms by (simp add: handleStartSession_def Let_def)

lemma handleStartSession_frame:
  "arrays (handleStartSession env s) = arrays s \<and> nextRef (handleStartSession env s) = nextRef s
   \<and> files (handleStartSession env s) = files s \<and> savedKBs (handleStartSession env s) = savedKBs s
   \<and> localStorage (handleStartSession env s) = localStorage s"
  by (simp add: handleStartSession_def Let_def alert_def split: sum.splits)

lemma handleFileChange_chatState: "chatState (handleFileChange targetFiles s) = chatState s"
  by (simp add: handleFileChange_def setFilesNew_def newArray_def split: option.splits prod.splits)

lemma handleConfirmSave_chatState: "chatState (handleConfirmSave clock setItem s) = chatState s"
  by (simp add: handleConfirmSave_def Let_def alert_def newArray_def split: option.splits)

lemma step_counters:
  assumes "withinSession a"
  shows "totalInputTokens (chatState s) \<le> totalInputTokens (chatState (step s a))
    \<and> totalOutputTokens (chatState s) \<le> totalOutputTokens (chatState (step s a))"
proof (cases a)
  case (SendMessage turn)
  with assms show ?thesis by (simp add: handleSendMessage_counters)
next
  case (FileChange targetFiles)
  then show ?thesis by (simp add: handleFileChange_chatState)
next
  case (ConfirmSave clock setItem)
  then show ?thesis by (simp add: handleConfirmSave_chatState)
qed (use assms in \<open>simp_all add: removeFile_def setFilesNew_def newArray_def
      handleClearWorkspace_def handleInitiateSave_def handleCancelSave_def handleDeleteKB_def
      alert_def Let_def split: option.splits\<close>)

lemma run_counters:
  "list_all withinSession acts \<Longrightarrow>
     totalInputTokens (chatState s) \<le> totalInputTokens (chatState (run s acts))
     \<and> totalOutputTokens (chatState s) \<le> totalOutputTokens (chatState (run s acts))"
proof (induction acts arbitrary: s)
  case Nil
  show ?case by (simp add: run_def)
next
  case (Cons a acts)
  from Cons.prems have a: "withinSession a" and rest: "list_all withinSession acts" by simp_all
  from step_counters [OF a, of s] Cons.IH [OF rest, of "step s a"]
  show ?case by (simp add: run_def)
qed

text \<open>Facts about the example states.\<close>

lemma exampleUploaded_live:
  "liveFiles exampleUploaded =
     [\<lparr>id_f = ''k3j9x0a1b'', name_f = ''README.MD'', content_f = ''Hello'', size_f = 5,
       type_f = ''text/plain''\<rparr>]"
  by code_simp

lemma exampleUploaded_cells:
  "chatState exampleUploaded = emptyChatState" "sessionActive exampleUploaded = False"
  "chatInstance exampleUploaded = None" "savedKBs exampleUploaded = []"
  "files exampleUploaded = 1" "nextRef exampleUploaded = 2" "saveName exampleUploaded = []"
  "localStorage exampleUploaded = None" "alertLog exampleUploaded = []"
  by code_simp+

lemma exampleUploaded_array:
  "arrays exampleUploaded (Suc 0) =
     [\<lparr>id_f = ''k3j9x0a1b'', name_f = ''README.MD'', content_f = ''Hello'', size_f = 5,
       type_f = ''text/plain''\<rparr>]"
  using exampleUploaded_live by (simp add: liveFiles_def exampleUploaded_cells)

lemma exampleEnv_opens:
  "createChatSession exampleEnv context =
     Inr \<lparr>chat_model = MODEL_NAME, chat_systemInstruction = buildSystemInstruction context\<rparr>"
  "createChatSession exampleEnvNoCount context =
     Inr \<lparr>chat_model = MODEL_NAME, chat_systemInstruction = buildSystemInstruction context\<rparr>"
  "estimateTokenCount exampleEnv t = 1200"
  "estimateTokenCount exampleEnvNoCount t = 0"
  by (simp_all add: createChatSession_def estimateTokenCount_def getClient_def exampleEnv_def
      exampleEnvNoCount_def newError_def)

lemma exampleUploaded_facts:
  "liveFiles exampleUploaded \<noteq> []"
  "createChatSession exampleEnv (knowledgeBaseOf (liveFiles exampleUploaded)) =
     Inr \<lparr>chat_model = MODEL_NAME,
          chat_systemInstruction = buildSystemInstruction (knowledgeBaseOf (liveFiles exampleUploaded))\<rparr>"
  "createChatSession exampleEnvNoCount (knowledgeBaseOf (liveFiles exampleUploaded)) =
     Inr \<lparr>chat_model = MODEL_NAME,
          chat_systemInstruction = buildSystemInstruction (knowledgeBaseOf (liveFiles exampleUploaded))\<rparr>"
  "estimateTokenCount exampleEnv (buildSystemInstruction (knowledgeBaseOf (liveFiles exampleUploaded))) = 1200"
  "estimateTokenCount exampleEnvNoCount (buildSystemInstruction (knowledgeBaseOf (liveFiles exampleUploaded))) = 0"
  by (simp_all add: exampleUploaded_live exampleEnv_opens)

lemma exampleSession_eq:
  "exampleSession =
     (handleStartSession exampleEnv exampleUploaded)\<lparr>inputMessage := '' How do I install it? ''\<rparr>"
  by (simp add: exampleSession_def run_def)

lemma exampleSession_facts:
  "trim (inputMessage exampleSession) \<noteq> []"
  "chatInstance exampleSession \<noteq> None"
  "\<not> isLoading (chatState exampleSession)"
  "ending (stream exampleFailedTurn) = Throws exampleNetworkError"
  unfolding exampleSession_eq
    handleStartSession_opens [OF exampleUploaded_facts(1) exampleUploaded_facts(2)]
  by (simp_all add: trim_def trimStart_def trimEnd_def isWhiteSpace_def exampleFailedTurn_def)

lemma exampleTurn_facts:
  "list_all withinSession [SendMessage exampleTurn]"
  "totalInputTokens (chatState exampleSession) = 1200"
  "totalInputTokens (chatState (run exampleSession [SendMessage exampleTurn])) = 2410"
  "totalOutputTokens (chatState exampleSession) = 0"
  "totalOutputTokens (chatState (run exampleSession [SendMessage exampleTurn])) = 4"
  unfolding exampleSession_eq
    handleStartSession_opens [OF exampleUploaded_facts(1) exampleUploaded_facts(2)]
  by (simp_all add: run_def handleSendMessage_def sendMessageStream_def streamStep_def
      onChunk_def usagePrompt_def usageCandidates_def nonNegativeUsage_def exampleTurn_def
      exampleEnv_opens Let_def trim_def trimStart_def trimEnd_def isWhiteSpace_def)

text \<open>
  C3. In a turn that passes the guard of the handler and whose stream throws, whatever
  chunks were delivered before and whatever the thrown value is, the handler returns a
  state: both token counters are as before the turn, the streaming buffer is empty, and the
  message list has grown by the user message followed by exactly one \<open>MODEL\<close> message
  with \<open>isError\<close> set, which carries the diagnostic text. The error is consumed inside
  the handler, whose result is a state in every case; the session stays open.
\<close>

theorem failed_turn_contained:
  assumes "trim (inputMessage s) \<noteq> []" and "chatInstance s \<noteq> None"
    and "\<not> isLoading (chatState s)" and "ending (stream turn) = Throws e"
  shows "totalInputTokens (chatState (handleSendMessage turn s)) = totalInputTokens (chatState s)
    \<and> totalOutputTokens (chatState (handleSendMessage turn s)) = totalOutputTokens (chatState s)
    \<and> streamingText (chatState (handleSendMessage turn s)) = []
    \<and> isLoading (chatState (handleSendMessage turn s)) = False
    \<and> messages (chatState (handleSendMessage turn s)) =
        messages (chatState s) @
           [\<lparr>id_m = toString (userClock turn), role = USER, text_m = trim (inputMessage s),
             timestamp = userClock turn, isError = False\<rparr>,
            \<lparr>id_m = toString (endClock turn), role = MODEL, text_m = streamErrorMessage e,
             timestamp = endClock turn, isError = True\<rparr>]
    \<and> sessionActive (handleSendMessage turn s) = sessionActive s
    \<and> chatInstance (handleSendMessage turn s) = chatInstance s"
  by (simp add: handleSendMessage_throws [OF assms])

theorem failed_turn_contained_witness:
  "trim (inputMessage exampleSession) \<noteq> [] \<and> chatInstance exampleSession \<noteq> None
   \<and> \<not> isLoading (chatState exampleSession)
   \<and> ending (stream exampleFailedTurn) = Throws exampleNetworkError
   \<and> totalInputTokens (chatState (handleSendMessage exampleFailedTurn exampleSession))
       = totalInputTokens (chatState exampleSession)
   \<and> totalOutputTokens (chatState (handleSendMessage exampleFailedTurn exampleSession))
       = totalOutputTokens (chatState exampleSession)
   \<and> streamingText (chatState (handleSendMessage exampleFailedTurn exampleSession)) = []
   \<and> isLoading (chatState (handleSendMessage exampleFailedTurn exampleSession)) = False
   \<and> messages (chatState (handleSendMessage exampleFailedTurn exampleSession)) =
        messages (chatState exampleSession) @
           [\<lparr>id_m = toString (userClock exampleFailedTurn), role = USER,
             text_m = trim (inputMessage exampleSession),
             timestamp = userClock exampleFailedTurn, isError = False\<rparr>,
            \<lparr>id_m = toString (endClock exampleFailedTurn), role = MODEL,
             text_m = streamErrorMessage exampleNetworkError,
             timestamp = endClock exampleFailedTurn, isError = True\<rparr>]
   \<and> sessionActive (handleSendMessage exampleFailedTurn exampleSession)
       = sessionActive exampleSession
   \<and> chatInstance (handleSendMessage exampleFailedTurn exampleSession)
       = chatInstance exampleSession"
proof -
  note c = failed_turn_contained [OF exampleSession_facts]
  show ?thesis
    by (intro conjI exampleSession_facts c [THEN conjunct1]
        c [THEN conjunct2, THEN conjunct1]
        c [THEN conjunct2, THEN conjunct2, THEN conjunct1]
        c [THEN conjunct2, THEN conjunct2, THEN conjunct2, THEN conjunct1]
        c [THEN conjunct2, THEN conjunct2, THEN conjunct2, THEN conjunct2, THEN conjunct1]
        c [THEN conjunct2, THEN conjunct2, THEN conjunct2, THEN conjunct2, THEN conjunct2,
           THEN conjunct1]
        c [THEN conjunct2, THEN conjunct2, THEN conjunct2, THEN conjunct2, THEN conjunct2,
           THEN conjunct2])
qed

text \<open>
  C4. When the upload list is not empty and the session opens, the state after
  \<^verbatim>\<open>handleStartSession\<close> has the output counter 0, the input counter equal to the
  estimate for the instruction built from the list (the \<^verbatim>\<open>totalTokens\<close> the provider
  reports, 0 when it reports none or when counting throws), and a message list that is
  exactly the greeting of role \<open>MODEL\<close> with the number of documents in its text.
\<close>

theorem start_initialises_session:
  assumes "liveFiles s \<noteq> []"
    and "createChatSession env (knowledgeBaseOf (liveFiles s)) = Inr chat"
  shows "sessionActive (handleStartSession env s) = True
    \<and> chatInstance (handleStartSession env s) = Some chat
    \<and> chat_systemInstruction chat = buildSystemInstruction (knowledgeBaseOf (liveFiles s))
    \<and> totalOutputTokens (chatState (handleStartSession env s)) = 0
    \<and> totalInputTokens (chatState (handleStartSession env s))
        = estimateTokenCount env (buildSystemInstruction (knowledgeBaseOf (liveFiles s)))
    \<and> estimateTokenCount env (buildSystemInstruction (knowledgeBaseOf (liveFiles s)))
        = (case countTokens env MODEL_NAME (buildSystemInstruction (knowledgeBaseOf (liveFiles s))) of
             Inl error \<Rightarrow> 0
           | Inr totalTokens \<Rightarrow> (case totalTokens of None \<Rightarrow> 0 | Some n \<Rightarrow> n))
    \<and> messages (chatState (handleStartSession env s))
        = [\<lparr>id_m = ''init'', role = MODEL,
            text_m = ''Hello! I've analyzed your '' @ toString (length (liveFiles s)) @
              '' document(s). I'm ready to answer questions specifically about this knowledge base. How can I help you?'',
            timestamp = startClock env, isError = False\<rparr>]
    \<and> isLoading (chatState (handleStartSession env s)) = False
    \<and> streamingText (chatState (handleStartSession env s)) = []
    \<and> liveFiles (handleStartSession env s) = liveFiles s"
proof -
  from createChatSession_Inr [OF assms(2)] obtain k where k: "getClient env = Inr k"
    and chat: "chat = \<lparr>chat_model = MODEL_NAME,
      chat_systemInstruction = buildSystemInstruction (knowledgeBaseOf (liveFiles s))\<rparr>"
    by blast
  have est: "estimateTokenCount env t
        = (case countTokens env MODEL_NAME t of
             Inl error \<Rightarrow> 0
           | Inr totalTokens \<Rightarrow> (case totalTokens of None \<Rightarrow> 0 | Some n \<Rightarrow> n))" for t
    by (simp add: estimateTokenCount_def k split: sum.splits option.splits)
  show ?thesis
    unfolding handleStartSession_opens [OF assms]
    using est by (simp add: greeting_def liveFiles_def chat)
qed

theorem start_initialises_session_witness:
  "liveFiles exampleUploaded \<noteq> []
   \<and> createChatSession exampleEnv (knowledgeBaseOf (liveFiles exampleUploaded)) =
       Inr \<lparr>chat_model = MODEL_NAME,
            chat_systemInstruction = buildSystemInstruction (knowledgeBaseOf (liveFiles exampleUploaded))\<rparr>
   \<and> sessionActive (handleStartSession exampleEnv exampleUploaded) = True
   \<and> totalOutputTokens (chatState (handleStartSession exampleEnv exampleUploaded)) = 0
   \<and> totalInputTokens (chatState (handleStartSession exampleEnv exampleUploaded)) = 1200
   \<and> map role (messages (chatState (handleStartSession exampleEnv exampleUploaded))) = [MODEL]
   \<and> createChatSession exampleEnvNoCount (knowledgeBaseOf (liveFiles exampleUploaded)) =
       Inr \<lparr>chat_model = MODEL_NAME,
            chat_systemInstruction = buildSystemInstruction (knowledgeBaseOf (liveFiles exampleUploaded))\<rparr>
   \<and> sessionActive (handleStartSession exampleEnvNoCount exampleUploaded) = True
   \<and> totalInputTokens (chatState (handleStartSession exampleEnvNoCount exampleUploaded)) = 0"
proof -
  note a = start_initialises_session [OF exampleUploaded_facts(1) exampleUploaded_facts(2)]
  note b = start_initialises_session [OF exampleUploaded_facts(1) exampleUploaded_facts(3)]
  from a have a5: "totalInputTokens (chatState (handleStartSession exampleEnv exampleUploaded)) = 1200"
    by (simp only: exampleUploaded_facts(4))
  from a have a7: "map role (messages (chatState (handleStartSession exampleEnv exampleUploaded))) = [MODEL]"
    by simp
  from b have b5: "totalInputTokens (chatState (handleStartSession exampleEnvNoCount exampleUploaded)) = 0"
    by (simp only: exampleUploaded_facts(5))
  show ?thesis
    by (intro conjI exampleUploaded_facts(1-3) a [THEN conjunct1]
        a [THEN conjunct2, THEN conjunct2, THEN conjunct2, THEN conjunct1] a5 a7
        b [THEN conjunct1] b5)
qed

text \<open>
  C8. \<^verbatim>\<open>handleReset\<close> clears the session flag, the session handle, the messages and
  both counters, and leaves the upload list as it is: the same array with the same
  documents.
\<close>

theorem handleReset_keeps_documents:
  "sessionActive (handleReset s) = False \<and> chatInstance (handleReset s) = None
   \<and> messages (chatState (handleReset s)) = []
   \<and> totalInputTokens (chatState (handleReset s)) = 0
   \<and> totalOutputTokens (chatState (handleReset s)) = 0
   \<and> streamingText (chatState (handleReset s)) = []
   \<and> isLoading (chatState (handleReset s)) = False
   \<and> files (handleReset s) = files s \<and> arrays (handleReset s) = arrays s
   \<and> liveFiles (handleReset s) = liveFiles s"
  by (simp add: handleReset_def emptyChatState_def liveFiles_def)

text \<open>
  C7, as stated, fails at the start of a session: the input counter is not reset to zero
  but set to the token estimate of the instruction, here 1200.
\<close>

theorem start_counter_counterexample:
  "liveFiles exampleUploaded \<noteq> []
   \<and> sessionActive exampleUploaded = False
   \<and> sessionActive (handleStartSession exampleEnv exampleUploaded) = True
   \<and> totalInputTokens (chatState (handleStartSession exampleEnv exampleUploaded)) = 1200"
  unfolding handleStartSession_opens [OF exampleUploaded_facts(1) exampleUploaded_facts(2)]
  by (simp add: exampleUploaded_facts exampleUploaded_cells)

text \<open>
  C7, amended. Over any sequence of actions that neither begins nor ends a session, the
  answers of its turns reporting no negative usage count, neither counter decreases. A
  session that opens starts with the output counter 0 and the input counter equal to the
  token estimate of its instruction, and \<^verbatim>\<open>handleReset\<close> sets both counters to 0.
\<close>

theorem session_counters:
  "(list_all withinSession acts \<longrightarrow>
      totalInputTokens (chatState s) \<le> totalInputTokens (chatState (run s acts))
      \<and> totalOutputTokens (chatState s) \<le> totalOutputTokens (chatState (run s acts)))
   \<and> (liveFiles s \<noteq> [] \<and> createChatSession env (knowledgeBaseOf (liveFiles s)) = Inr chat \<longrightarrow>
      totalOutputTokens (chatState (handleStartSession env s)) = 0
      \<and> totalInputTokens (chatState (handleStartSession env s))
          = estimateTokenCount env (buildSystemInstruction (knowledgeBaseOf (liveFiles s))))
   \<and> totalInputTokens (chatState (handleReset s)) = 0
   \<and> totalOutputTokens (chatState (handleReset s)) = 0"
proof -
  have start: "totalOutputTokens (chatState (handleStartSession env s)) = 0
      \<and> totalInputTokens (chatState (handleStartSession env s))
          = estimateTokenCount env (buildSystemInstruction (knowledgeBaseOf (liveFiles s)))"
    if "liveFiles s \<noteq> [] \<and> createChatSession env (knowledgeBaseOf (liveFiles s)) = Inr chat"
    using that by (simp add: handleStartSession_opens)
  have reset: "totalInputTokens (chatState (handleReset s)) = 0
      \<and> totalOutputTokens (chatState (handleReset s)) = 0"
    by (simp add: handleReset_def emptyChatState_def)
  from run_counters [of acts s] start reset show ?thesis by blast
qed

theorem session_counters_witness:
  "list_all withinSession [SendMessage exampleTurn]
   \<and> totalInputTokens (chatState exampleSession)
       \<le> totalInputTokens (chatState (run exampleSession [SendMessage exampleTurn]))
   \<and> totalOutputTokens (chatState exampleSession)
       \<le> totalOutputTokens (chatState (run exampleSession [SendMessage exampleTurn]))
   \<and> totalInputTokens (chatState (run exampleSession [SendMessage exampleTurn])) = 2410
   \<and> totalOutputTokens (chatState (run exampleSession [SendMessage exampleTurn])) = 4
   \<and> liveFiles exampleUploaded \<noteq> []
   \<and> createChatSession exampleEnv (knowledgeBaseOf (liveFiles exampleUploaded)) =
       Inr \<lparr>chat_model = MODEL_NAME,
            chat_systemInstruction = buildSystemInstruction (knowledgeBaseOf (liveFiles exampleUploaded))\<rparr>
   \<and> totalOutputTokens (chatState (handleStartSession exampleEnv exampleUploaded)) = 0
   \<and> totalInputTokens (chatState (handleStartSession exampleEnv exampleUploaded))
       = estimateTokenCount exampleEnv
           (buildSystemInstruction (knowledgeBaseOf (liveFiles exampleUploaded)))
   \<and> totalInputTokens (chatState (handleReset exampleSession)) = 0
   \<and> totalOutputTokens (chatState (handleReset exampleSession)) = 0"
proof -
  note t = session_counters [of "[SendMessage exampleTurn]" exampleSession, THEN conjunct1,
      THEN mp, OF exampleTurn_facts(1)]
  note st = session_counters [of _ exampleUploaded exampleEnv, THEN conjunct2, THEN conjunct1,
      THEN mp, OF conjI [OF exampleUploaded_facts(1) exampleUploaded_facts(2)]]
  note r = session_counters [of _ exampleSession, THEN conjunct2, THEN conjunct2]
  show ?thesis
    by (intro conjI exampleTurn_facts(1) exampleTurn_facts(3) exampleTurn_facts(5)
        t [THEN conjunct1] t [THEN conjunct2]
        exampleUploaded_facts(1) exampleUploaded_facts(2) st [THEN conjunct1] st [THEN conjunct2]
        r [THEN conjunct1] r [THEN conjunct2])
qed

section \<open>Properties of the saved knowledge bases\<close>

lemma handleFileChange_arrays:
  "nextRef s \<le> nextRef (handleFileChange targetFiles s)
   \<and> (r < nextRef s \<longrightarrow> arrays (handleFileChange targetFiles s) r = arrays s r)
   \<and> savedKBs (handleFileChange targetFiles s) = savedKBs s"
  by (simp add: handleFileChange_def setFilesNew_def newArray_def split: option.splits prod.splits)

lemma handleConfirmSave_arrays:
  "nextRef s \<le> nextRef (handleConfirmSave clock setItem s)
   \<and> (r < nextRef s \<longrightarrow> arrays (handleConfirmSave clock setItem s) r = arrays s r)
   \<and> files (handleConfirmSave clock setItem s) = files s"
  by (simp add: handleConfirmSave_def Let_def alert_def newArray_def split: option.splits)

lemma step_arrays:
  "nextRef s \<le> nextRef (step s a) \<and> (r < nextRef s \<longrightarrow> arrays (step s a) r = arrays s r)"
proof (cases a)
  case (FileChange targetFiles)
  then show ?thesis using handleFileChange_arrays [of s targetFiles r] by simp
next
  case (StartSession env)
  then show ?thesis by (simp add: handleStartSession_frame)
next
  case (SendMessage turn)
  then show ?thesis by (simp add: handleSendMessage_frame)
next
  case (ConfirmSave clock setItem)
  then show ?thesis using handleConfirmSave_arrays [of s clock setItem r] by simp
qed (simp_all add: removeFile_def setFilesNew_def newArray_def handleClearWorkspace_def
      handleCreateNew_def handleReset_def handleInitiateSave_def handleCancelSave_def
      handleLoadKB_def handleDeleteKB_def alert_def Let_def split: option.splits)

lemma run_arrays:
  "nextRef s \<le> nextRef (run s acts) \<and> (r < nextRef s \<longrightarrow> arrays (run s acts) r = arrays s r)"
proof (induction acts arbitrary: s)
  case Nil
  show ?case by (simp add: run_def)
next
  case (Cons a acts)
  from step_arrays [of s a r] Cons.IH [of "step s a"]
  show ?case by (auto simp: run_def)
qed

lemma handleConfirmSave_written:
  assumes "trim (saveName s) \<noteq> []"
  shows "handleConfirmSave clock None s =
    s\<lparr>arrays := (arrays s)(nextRef s := liveFiles s), nextRef := Suc (nextRef s),
      localStorage := Some (JSON_stringify ((arrays s)(nextRef s := liveFiles s))
        (savedKBs s @ [\<lparr>id_kb = toString clock, name_kb = trim (saveName s), createdAt = clock,
                        files_kb = nextRef s\<rparr>])),
      savedKBs := savedKBs s @ [\<lparr>id_kb = toString clock, name_kb = trim (saveName s),
                        createdAt = clock, files_kb = nextRef s\<rparr>],
      showSaveInput := False, saveName := [],
      alertLog := alertLog s @ [''Knowledge Base saved successfully!''],
      activeTab := library\<rparr>"
  using assms by (simp add: handleConfirmSave_def Let_def alert_def newArray_def)

lemma handleConfirmSave_rejected:
  assumes "trim (saveName s) \<noteq> []"
  shows "handleConfirmSave clock (Some e) s =
    s\<lparr>arrays := (arrays s)(nextRef s := liveFiles s), nextRef := Suc (nextRef s),
      alertLog := alertLog s @ [if quotaError e then quotaAlert else genericSaveAlert]\<rparr>"
  using assms by (simp add: handleConfirmSave_def Let_def alert_def newArray_def)

lemma handleConfirmSave_blank:
  "trim (saveName s) = [] \<Longrightarrow>
     handleConfirmSave clock setItem s = alert ''Please enter a name for the Knowledge Base.'' s"
  by (simp add: handleConfirmSave_def)

lemma JSON_stringify_fresh:
  "list_all (\<lambda>kb. files_kb kb < n) kbs \<Longrightarrow> JSON_stringify (h(n := xs)) kbs = JSON_stringify h kbs"
  by (induction kbs) (simp_all add: JSON_stringify_def)

lemma handleConfirmSave_failed_cells:
  "savedKBs (handleConfirmSave clock (Some e) s) = savedKBs s
   \<and> localStorage (handleConfirmSave clock (Some e) s) = localStorage s
   \<and> liveFiles (handleConfirmSave clock (Some e) s) = liveFiles s"
  by (cases "trim (saveName s) = []")
    (simp_all add: handleConfirmSave_blank handleConfirmSave_rejected alert_def liveFiles_def)

lemma handleConfirmSave_failed_records:
  assumes "wellFormed s"
  shows "JSON_stringify (arrays (handleConfirmSave clock (Some e) s))
             (savedKBs (handleConfirmSave clock (Some e) s))
           = JSON_stringify (arrays s) (savedKBs s)"
  using assms
  by (cases "trim (saveName s) = []")
    (simp_all add: handleConfirmSave_blank handleConfirmSave_rejected alert_def wellFormed_def
      JSON_stringify_fresh)

text \<open>Every state reached from the initial one by offered actions is well formed.\<close>

lemma list_all_less_mono: "list_all (\<lambda>kb. files_kb kb < n) kbs \<Longrightarrow> n \<le> m
    \<Longrightarrow> list_all (\<lambda>kb. files_kb kb < m) kbs"
  by (induction kbs) auto

lemma wellFormed_parseRecord: "wellFormed s \<Longrightarrow> wellFormed (parseRecord s r)"
  by (auto simp: wellFormed_def parseRecord_def newArray_def intro: list_all_less_mono)

lemma wellFormed_foldl_parseRecord: "wellFormed s \<Longrightarrow> wellFormed (foldl parseRecord s rs)"
  by (induction rs arbitrary: s) (simp_all add: wellFormed_parseRecord)

lemma wellFormed_initialState: "wellFormed (initialState slot)"
proof -
  have "wellFormed ((initialCells slot)\<lparr>savedKBs := []\<rparr>)"
    by (simp add: wellFormed_def initialCells_def)
  then show ?thesis
    by (cases slot)
      (simp_all add: initialState_def mountEffect_def initialCells_def wellFormed_def
        wellFormed_foldl_parseRecord [unfolded wellFormed_def])
qed

text \<open>The records that the mount effect builds from the slot serialise to the content of
  the slot.\<close>

lemma JSON_stringify_parseRecord:
  assumes "wellFormed s"
  shows "JSON_stringify (arrays (foldl parseRecord s rs)) (savedKBs (foldl parseRecord s rs))
    = JSON_stringify (arrays s) (savedKBs s) @ rs"
  using assms
proof (induction rs arbitrary: s)
  case Nil
  show ?case by simp
next
  case (Cons r rs)
  have fresh: "JSON_stringify ((arrays s)(nextRef s := stored_files r)) (savedKBs s)
      = JSON_stringify (arrays s) (savedKBs s)"
    using Cons.prems by (simp add: wellFormed_def JSON_stringify_fresh)
  have app: "JSON_stringify h (kbs @ [kb]) = JSON_stringify h kbs @
      [\<lparr>stored_id = id_kb kb, stored_name = name_kb kb, stored_createdAt = createdAt kb,
        stored_files = h (files_kb kb)\<rparr>]" for h kbs kb
    by (simp add: JSON_stringify_def)
  have "JSON_stringify (arrays (parseRecord s r)) (savedKBs (parseRecord s r))
      = JSON_stringify (arrays s) (savedKBs s) @ [r]"
    by (simp add: parseRecord_def newArray_def app fresh)
  with Cons.IH [OF wellFormed_parseRecord [OF Cons.prems]] show ?case by simp
qed

lemma JSON_stringify_initialState:
  "JSON_stringify (arrays (initialState (Some saved))) (savedKBs (initialState (Some saved)))
     = saved"
proof -
  have "wellFormed ((initialCells (Some saved))\<lparr>savedKBs := []\<rparr>)"
    by (simp add: wellFormed_def initialCells_def)
  from JSON_stringify_parseRecord [OF this, of saved] show ?thesis
    by (simp add: initialState_def mountEffect_def initialCells_def JSON_stringify_def)
qed

lemma wellFormed_step:
  assumes "wellFormed s" and "offered s a"
  shows "wellFormed (step s a)"
proof (cases a)
  case (FileChange targetFiles)
  with assms show ?thesis
    by (auto simp: wellFormed_def handleFileChange_def setFilesNew_def newArray_def
        split: option.splits prod.splits intro: list_all_less_mono)
next
  case (StartSession env)
  with assms show ?thesis by (simp add: wellFormed_def handleStartSession_frame)
next
  case (SendMessage turn)
  with assms show ?thesis by (simp add: wellFormed_def handleSendMessage_frame)
next
  case (ConfirmSave clock setItem)
  with assms show ?thesis
    by (auto simp: wellFormed_def handleConfirmSave_def Let_def alert_def newArray_def
        split: option.splits intro: list_all_less_mono)
next
  case (LoadKB kb confirmed)
  with assms show ?thesis
    by (auto simp: wellFormed_def handleLoadKB_def handleReset_def list_all_iff)
next
  case (DeleteKB i confirmed setItem)
  with assms show ?thesis
    by (auto simp: wellFormed_def handleDeleteKB_def Let_def alert_def list_all_iff
        split: option.splits)
qed (use assms in \<open>auto simp: wellFormed_def removeFile_def setFilesNew_def newArray_def
      handleClearWorkspace_def handleCreateNew_def handleReset_def handleInitiateSave_def
      handleCancelSave_def intro: list_all_less_mono\<close>)

text \<open>Facts about the example states.\<close>

lemma exampleNamed_eq:
  "exampleNamed =
     exampleUploaded\<lparr>saveName := ''SDK Docs - 11/14/2023 10:13 PM'', showSaveInput := True\<rparr>"
  by (simp add: exampleNamed_def run_def handleInitiateSave_def exampleUploaded_live)

lemma exampleNamed_facts:
  "trim (saveName exampleNamed) \<noteq> []"
  "wellFormed exampleNamed"
  "err_name exampleQuotaError = Some ''QuotaExceededError''"
  "liveFiles exampleNamed \<noteq> []"
  "files exampleNamed = 1"
  "nextRef exampleNamed = 2"
  "sessionActive exampleNamed = False"
  by (simp_all add: exampleNamed_eq exampleUploaded_cells exampleUploaded_array
      liveFiles_def wellFormed_def exampleQuotaError_def
      trim_def trimStart_def trimEnd_def isWhiteSpace_def)

lemma exampleArchive_processed:
  "processFiles [exampleArchive] =
     ([\<lparr>id_f = ''a1b2c3d4e'', name_f = ''src/main.cpp'', content_f = ''int main() {}'',
        size_f = 13, type_f = ''text/plain''\<rparr>], [])"
  by code_simp

lemma exampleSaved_eq: "exampleSaved = handleConfirmSave 1700000003000 None exampleNamed"
  by (simp add: exampleSaved_def run_def)

lemma exampleRenamed_cells:
  "files exampleRenamed = 3" "nextRef exampleRenamed = 4"
  "map files_kb (savedKBs exampleRenamed) = [2]"
  "saveName exampleRenamed = ''SDK Docs v2''"
  "sessionActive exampleRenamed = False"
  "liveFiles exampleRenamed =
     [\<lparr>id_f = ''k3j9x0a1b'', name_f = ''README.MD'', content_f = ''Hello'', size_f = 5,
       type_f = ''text/plain''\<rparr>,
      \<lparr>id_f = ''a1b2c3d4e'', name_f = ''src/main.cpp'', content_f = ''int main() {}'',
        size_f = 13, type_f = ''text/plain''\<rparr>]"
  unfolding exampleRenamed_def exampleSaved_eq handleConfirmSave_written [OF exampleNamed_facts(1)]
  by (simp_all add: run_def handleFileChange_def handleInitiateSave_def setFilesNew_def
      newArray_def liveFiles_def exampleArchive_processed exampleNamed_facts
      exampleNamed_eq exampleUploaded_cells exampleUploaded_array)

lemma exampleRenamed_facts:
  "trim (saveName exampleRenamed) \<noteq> []"
  "wellFormed exampleRenamed"
  "liveFiles exampleRenamed \<noteq> []"
  "hd (savedKBs exampleRenamed) \<in> set (savedKBs exampleRenamed)"
proof -
  from exampleRenamed_cells(3) obtain k where k: "savedKBs exampleRenamed = [k]" "files_kb k = 2"
    by (auto simp: map_eq_Cons_conv)
  show "trim (saveName exampleRenamed) \<noteq> []"
    by (simp add: exampleRenamed_cells trim_def trimStart_def trimEnd_def isWhiteSpace_def)
  show "wellFormed exampleRenamed"
    by (simp add: wellFormed_def exampleRenamed_cells k)
  show "liveFiles exampleRenamed \<noteq> []"
    by (simp add: exampleRenamed_cells)
  show "hd (savedKBs exampleRenamed) \<in> set (savedKBs exampleRenamed)"
    by (simp add: k)
qed

lemma exampleSecondSave_facts:
  "files_kb (last (savedKBs (handleConfirmSave 1700000009000 None exampleRenamed)))
     = nextRef exampleRenamed"
  "sessionActive (run (handleConfirmSave 1700000009000 None exampleRenamed)
     [RemoveFile ''k3j9x0a1b'', ClearWorkspace True]) \<longrightarrow> False"
  "liveFiles (run (handleConfirmSave 1700000009000 None exampleRenamed)
     [RemoveFile ''k3j9x0a1b'', ClearWorkspace True]) = []"
  unfolding handleConfirmSave_written [OF exampleRenamed_facts(1)]
  by (simp_all add: run_def handleClearWorkspace_def removeFile_def setFilesNew_def
      newArray_def liveFiles_def exampleRenamed_cells)

text \<open>
  C6. In a save attempt with a non-blank name whose durable write returns, the slot holds
  the complete updated record set, which is the record list of the new state. When the
  write throws, or the name is blank, the record list and the slot are as before the
  attempt, and so are the documents of every record. A thrown value named
  \<^verbatim>\<open>QuotaExceededError\<close> is answered with the storage-limit alert, which differs from
  the alert for any other failure.
\<close>

theorem save_writes_storage_first:
  "(trim (saveName s) \<noteq> [] \<longrightarrow>
      savedKBs (handleConfirmSave clock None s) =
        savedKBs s @ [\<lparr>id_kb = toString clock, name_kb = trim (saveName s), createdAt = clock,
                        files_kb = nextRef s\<rparr>]
      \<and> localStorage (handleConfirmSave clock None s) =
          Some (JSON_stringify (arrays (handleConfirmSave clock None s))
                 (savedKBs (handleConfirmSave clock None s))))
   \<and> (trim (saveName s) = [] \<longrightarrow>
      savedKBs (handleConfirmSave clock setItem s) = savedKBs s
      \<and> localStorage (handleConfirmSave clock setItem s) = localStorage s)
   \<and> savedKBs (handleConfirmSave clock (Some e) s) = savedKBs s
   \<and> localStorage (handleConfirmSave clock (Some e) s) = localStorage s
   \<and> liveFiles (handleConfirmSave clock (Some e) s) = liveFiles s
   \<and> (wellFormed s \<longrightarrow>
        JSON_stringify (arrays (handleConfirmSave clock (Some e) s))
            (savedKBs (handleConfirmSave clock (Some e) s))
          = JSON_stringify (arrays s) (savedKBs s))
   \<and> (trim (saveName s) \<noteq> [] \<longrightarrow>
        alertLog (handleConfirmSave clock (Some e) s) =
          alertLog s @ [if quotaError e then quotaAlert else genericSaveAlert])
   \<and> (trim (saveName s) \<noteq> [] \<and> err_name e = Some ''QuotaExceededError'' \<longrightarrow>
        alertLog (handleConfirmSave clock (Some e) s) = alertLog s @ [quotaAlert])
   \<and> quotaAlert \<noteq> genericSaveAlert"
proof -
  have written: "savedKBs (handleConfirmSave clock None s) =
        savedKBs s @ [\<lparr>id_kb = toString clock, name_kb = trim (saveName s), createdAt = clock,
                        files_kb = nextRef s\<rparr>]
      \<and> localStorage (handleConfirmSave clock None s) =
          Some (JSON_stringify (arrays (handleConfirmSave clock None s))
                 (savedKBs (handleConfirmSave clock None s)))"
    if "trim (saveName s) \<noteq> []"
    by (simp add: handleConfirmSave_written [OF that])
  have blank: "savedKBs (handleConfirmSave clock setItem s) = savedKBs s
      \<and> localStorage (handleConfirmSave clock setItem s) = localStorage s"
    if "trim (saveName s) = []"
    by (simp add: handleConfirmSave_blank [OF that] alert_def)
  have shown: "alertLog (handleConfirmSave clock (Some e) s) =
          alertLog s @ [if quotaError e then quotaAlert else genericSaveAlert]"
    if "trim (saveName s) \<noteq> []"
    by (simp add: handleConfirmSave_rejected [OF that])
  have quota: "alertLog (handleConfirmSave clock (Some e) s) = alertLog s @ [quotaAlert]"
    if "trim (saveName s) \<noteq> [] \<and> err_name e = Some ''QuotaExceededError''"
    using that by (simp add: handleConfirmSave_rejected quotaError_def)
  have distinct: "quotaAlert \<noteq> genericSaveAlert"
    by (simp add: quotaAlert_def genericSaveAlert_def)
  from written blank shown quota distinct handleConfirmSave_failed_cells [of clock e s]
    handleConfirmSave_failed_records [of s clock e]
  show ?thesis by blast
qed

theorem save_writes_storage_first_witness:
  "trim (saveName exampleNamed) \<noteq> [] \<and> wellFormed exampleNamed
   \<and> err_name exampleQuotaError = Some ''QuotaExceededError''
   \<and> trim (saveName exampleUploaded) = []
   \<and> localStorage (handleConfirmSave 1700000003000 None exampleNamed) =
        Some (JSON_stringify (arrays (handleConfirmSave 1700000003000 None exampleNamed))
               (savedKBs (handleConfirmSave 1700000003000 None exampleNamed)))
   \<and> savedKBs (handleConfirmSave 1700000003000 None exampleUploaded) = savedKBs exampleUploaded
   \<and> savedKBs (handleConfirmSave 1700000003000 (Some exampleQuotaError) exampleNamed)
       = savedKBs exampleNamed
   \<and> localStorage (handleConfirmSave 1700000003000 (Some exampleQuotaError) exampleNamed)
       = localStorage exampleNamed
   \<and> JSON_stringify (arrays (handleConfirmSave 1700000003000 (Some exampleQuotaError) exampleNamed))
         (savedKBs (handleConfirmSave 1700000003000 (Some exampleQuotaError) exampleNamed))
       = JSON_stringify (arrays exampleNamed) (savedKBs exampleNamed)
   \<and> alertLog (handleConfirmSave 1700000003000 (Some exampleQuotaError) exampleNamed)
       = alertLog exampleNamed @ [if quotaError exampleQuotaError then quotaAlert else genericSaveAlert]
   \<and> alertLog (handleConfirmSave 1700000003000 (Some exampleQuotaError) exampleNamed)
       = alertLog exampleNamed @ [quotaAlert]"
proof -
  have blank: "trim (saveName exampleUploaded) = []"
    by (simp add: exampleUploaded_cells trim_def trimStart_def trimEnd_def)
  note c = save_writes_storage_first [of exampleNamed 1700000003000 None exampleQuotaError]
  note b = save_writes_storage_first [of exampleUploaded 1700000003000 None,
      THEN conjunct2, THEN conjunct1, THEN mp, OF blank, THEN conjunct1]
  note c2 = c [THEN conjunct2]
  note c3 = c2 [THEN conjunct2]
  note c4 = c3 [THEN conjunct2]
  note c5 = c4 [THEN conjunct2]
  note c6 = c5 [THEN conjunct2]
  note c7 = c6 [THEN conjunct2]
  note c8 = c7 [THEN conjunct2]
  show ?thesis
    by (intro conjI exampleNamed_facts(1-3) blank
        c [THEN conjunct1, THEN mp, OF exampleNamed_facts(1), THEN conjunct2] b
        c3 [THEN conjunct1] c4 [THEN conjunct1]
        c6 [THEN conjunct1, THEN mp, OF exampleNamed_facts(2)]
        c7 [THEN conjunct1, THEN mp, OF exampleNamed_facts(1)]
        c8 [THEN conjunct1, THEN mp, OF conjI [OF exampleNamed_facts(1) exampleNamed_facts(3)]])
qed

text \<open>
  C2, as stated, fails after a load: \<^verbatim>\<open>handleLoadKB\<close> makes the live upload list the
  very array of the saved record.
\<close>

theorem loaded_list_shares_record_counterexample:
  "last (savedKBs exampleSaved) \<in> set (savedKBs exampleSaved)
   \<and> files exampleSaved \<noteq> files_kb (last (savedKBs exampleSaved))
   \<and> files (handleLoadKB (last (savedKBs exampleSaved)) False exampleSaved)
       = files_kb (last (savedKBs exampleSaved))"
  unfolding exampleSaved_eq handleConfirmSave_written [OF exampleNamed_facts(1)]
  by (simp add: handleLoadKB_def exampleNamed_facts)

text \<open>
  C2, amended. A save with a non-blank name whose durable write returns appends a record
  whose documents are a new array equal by value to the live list, different from the
  array of the live list and from the array of every earlier record. No sequence of
  actions changes the documents of the record, so loading it after any such sequence
  (confirming the dialog when a session is active) makes the live list equal by value to
  the list that was saved; after the load the live list and the record share one array.
\<close>

theorem saved_record_round_trip:
  assumes "trim (saveName s) \<noteq> []"
  shows "savedKBs (handleConfirmSave clock None s) =
      savedKBs s @ [\<lparr>id_kb = toString clock, name_kb = trim (saveName s), createdAt = clock,
                      files_kb = nextRef s\<rparr>]
    \<and> arrays (handleConfirmSave clock None s) (nextRef s) = liveFiles s
    \<and> (wellFormed s \<longrightarrow>
         files (handleConfirmSave clock None s) \<noteq> nextRef s
         \<and> (\<forall>k \<in> set (savedKBs s). files_kb k \<noteq> nextRef s))
    \<and> (\<forall>acts. arrays (run (handleConfirmSave clock None s) acts) (nextRef s) = liveFiles s)
    \<and> (\<forall>acts confirmed kb.
         files_kb kb = nextRef s \<and> (sessionActive (run (handleConfirmSave clock None s) acts) \<longrightarrow> confirmed)
         \<longrightarrow> liveFiles (handleLoadKB kb confirmed (run (handleConfirmSave clock None s) acts))
               = liveFiles s
             \<and> files (handleLoadKB kb confirmed (run (handleConfirmSave clock None s) acts))
               = nextRef s)"
proof -
  let ?s1 = "handleConfirmSave clock None s"
  have s1: "arrays ?s1 (nextRef s) = liveFiles s" "nextRef ?s1 = Suc (nextRef s)"
    "files ?s1 = files s"
    "savedKBs ?s1 = savedKBs s @ [\<lparr>id_kb = toString clock, name_kb = trim (saveName s),
        createdAt = clock, files_kb = nextRef s\<rparr>]"
    by (simp_all add: handleConfirmSave_written [OF assms])
  have keep: "arrays (run ?s1 acts) (nextRef s) = liveFiles s" for acts
    using run_arrays [of ?s1 acts "nextRef s"] s1 by simp
  have fresh: "files ?s1 \<noteq> nextRef s \<and> (\<forall>k \<in> set (savedKBs s). files_kb k \<noteq> nextRef s)"
    if "wellFormed s"
    using that s1 by (auto simp: wellFormed_def list_all_iff)
  have load: "liveFiles (handleLoadKB kb confirmed (run ?s1 acts)) = liveFiles s
      \<and> files (handleLoadKB kb confirmed (run ?s1 acts)) = nextRef s"
    if "files_kb kb = nextRef s \<and> (sessionActive (run ?s1 acts) \<longrightarrow> confirmed)"
    for acts confirmed kb
    using that keep [of acts] by (auto simp: handleLoadKB_def handleReset_def liveFiles_def)
  from s1 keep fresh load show ?thesis by blast
qed

theorem saved_record_round_trip_witness:
  "trim (saveName exampleRenamed) \<noteq> [] \<and> wellFormed exampleRenamed
   \<and> liveFiles exampleRenamed \<noteq> []
   \<and> files (handleConfirmSave 1700000009000 None exampleRenamed) \<noteq> nextRef exampleRenamed
   \<and> hd (savedKBs exampleRenamed) \<in> set (savedKBs exampleRenamed)
   \<and> files_kb (hd (savedKBs exampleRenamed)) \<noteq> nextRef exampleRenamed
   \<and> files_kb (last (savedKBs (handleConfirmSave 1700000009000 None exampleRenamed)))
       = nextRef exampleRenamed
   \<and> liveFiles (run (handleConfirmSave 1700000009000 None exampleRenamed)
        [RemoveFile ''k3j9x0a1b'', ClearWorkspace True]) = []
   \<and> liveFiles (handleLoadKB (last (savedKBs (handleConfirmSave 1700000009000 None exampleRenamed)))
        False
        (run (handleConfirmSave 1700000009000 None exampleRenamed)
          [RemoveFile ''k3j9x0a1b'', ClearWorkspace True]))
       = liveFiles exampleRenamed
   \<and> files (handleLoadKB (last (savedKBs (handleConfirmSave 1700000009000 None exampleRenamed)))
        False
        (run (handleConfirmSave 1700000009000 None exampleRenamed)
          [RemoveFile ''k3j9x0a1b'', ClearWorkspace True]))
       = nextRef exampleRenamed"
proof -
  note c = saved_record_round_trip [OF exampleRenamed_facts(1), of 1700000009000]
  note fresh = c [THEN conjunct2, THEN conjunct2, THEN conjunct1, THEN mp,
      OF exampleRenamed_facts(2)]
  note load = c [THEN conjunct2, THEN conjunct2, THEN conjunct2, THEN conjunct2,
      THEN spec, THEN spec, THEN spec, THEN mp,
      OF conjI [OF exampleSecondSave_facts(1) exampleSecondSave_facts(2)]]
  show ?thesis
    by (intro conjI exampleRenamed_facts fresh [THEN conjunct1]
        fresh [THEN conjunct2, THEN bspec, OF exampleRenamed_facts(4)]
        exampleSecondSave_facts(1) exampleSecondSave_facts(3)
        load [THEN conjunct1] load [THEN conjunct2])
qed

end
